theory Spec2Isabelle
  imports Main "HOL-Library.Sublist"
begin

section \<open>Classifier\<close>

subsection \<open>Size category\<close>

text \<open>
  \<^verbatim>\<open>get_file_size_category\<close> of \<^verbatim>\<open>main.py\<close>: an \<open>if\<close>/\<open>elif\<close> chain over a Python
  integer (unbounded, hence \<open>int\<close>); the labels are the strings the source returns.
\<close>

definition get_file_size_category :: "int \<Rightarrow> string" where
  "get_file_size_category file_size_in_bytes =
     (if file_size_in_bytes = 0 then ''Empty''
      else if 0 < file_size_in_bytes \<and> file_size_in_bytes \<le> 16 * 1024 then ''Tiny''
      else if 16 * 1024 < file_size_in_bytes \<and> file_size_in_bytes \<le> 1 * 1024 * 1024 then ''Small''
      else if 1 * 1024 * 1024 < file_size_in_bytes \<and> file_size_in_bytes \<le> 128 * 1024 * 1024
        then ''Medium''
      else if 128 * 1024 * 1024 < file_size_in_bytes
          \<and> file_size_in_bytes \<le> 1 * 1024 * 1024 * 1024 then ''Large''
      else if 1 * 1024 * 1024 * 1024 < file_size_in_bytes
          \<and> file_size_in_bytes \<le> 4 * 1024 * 1024 * 1024 then ''Huge''
      else ''Gigantic'')"

subsection \<open>Folder depth\<close>

text \<open>
  \<^verbatim>\<open>os.path.dirname\<close> is library code. On POSIX it is \<^verbatim>\<open>posixpath.dirname\<close>:
  \<^verbatim>\<open>
  i = p.rfind(sep) + 1
  head = p[:i]
  if head and head != sep*len(head):
      head = head.rstrip(sep)
  return head
  \<close>
  with \<^verbatim>\<open>sep = '/'\<close>. \<open>rfind\<close> is the index of the last occurrence, or \<open>-1\<close>.
\<close>

definition sep :: char where
  "sep = CHR ''/''"

definition rfind :: "string \<Rightarrow> char \<Rightarrow> int" where
  "rfind p c =
     (if c \<in> set p
      then int (length p) - 1 - int (length (takeWhile (\<lambda>x. x \<noteq> c) (rev p)))
      else - 1)"

definition rstrip :: "string \<Rightarrow> char \<Rightarrow> string" where
  "rstrip s c = rev (dropWhile (\<lambda>x. x = c) (rev s))"

definition dirname :: "string \<Rightarrow> string" where
  "dirname p =
     (let i = nat (rfind p sep + 1);
          head = take i p
      in if head \<noteq> [] \<and> head \<noteq> replicate (length head) sep then rstrip head sep else head)"

lemma rstrip_is_prefix: "\<exists>t. s = rstrip s c @ t"
proof -
  have "rstrip s c @ rev (takeWhile (\<lambda>x. x = c) (rev s))
      = rev (takeWhile (\<lambda>x. x = c) (rev s) @ dropWhile (\<lambda>x. x = c) (rev s))"
    unfolding rstrip_def by (simp only: rev_append)
  also have "\<dots> = s"
    by (simp only: takeWhile_dropWhile_id rev_rev_ident)
  finally have "s = rstrip s c @ rev (takeWhile (\<lambda>x. x = c) (rev s))"
    by (rule sym)
  then show ?thesis ..
qed

lemma dirname_is_prefix: "\<exists>t. p = dirname p @ t"
proof -
  define head where "head = take (nat (rfind p sep + 1)) p"
  have p: "p = head @ drop (nat (rfind p sep + 1)) p"
    by (simp add: head_def)
  obtain t where t: "head = rstrip head sep @ t"
    using rstrip_is_prefix by blast
  have "dirname p = head \<or> dirname p = rstrip head sep"
    by (simp add: dirname_def Let_def head_def)
  then show ?thesis
  proof
    assume "dirname p = head"
    with p show ?thesis by metis
  next
    assume "dirname p = rstrip head sep"
    with p t have "p = dirname p @ (t @ drop (nat (rfind p sep + 1)) p)"
      by (metis append.assoc)
    then show ?thesis ..
  qed
qed

lemma dirname_shorter: "p \<noteq> dirname p \<Longrightarrow> length (dirname p) < length p"
proof -
  assume ne: "p \<noteq> dirname p"
  obtain t where t: "p = dirname p @ t"
    using dirname_is_prefix by blast
  with ne have "t \<noteq> []" by auto
  then have "length (dirname p) < length (dirname p @ t)" by simp
  with t show ?thesis by metis
qed

text \<open>
  \<^verbatim>\<open>get_folder_depth\<close>: the \<open>while\<close> loop of the source, its two variables as the
  arguments of the recursion. The loop has no iteration bound; it stops when
  \<^verbatim>\<open>file_path == os.path.dirname(file_path)\<close>.
\<close>

function folder_depth_loop :: "string \<Rightarrow> int \<Rightarrow> int" where
  "folder_depth_loop file_path folder_depth =
     (if file_path \<noteq> dirname file_path
      then folder_depth_loop (dirname file_path) (folder_depth + 1)
      else folder_depth)"
  by pat_completeness auto
termination
  by (relation "measure (\<lambda>(p, d). length p)") (auto simp: dirname_shorter)

definition get_folder_depth :: "string \<Rightarrow> int" where
  "get_folder_depth file_path = folder_depth_loop file_path 0"

section \<open>Environment: exceptions, the operating system, the filesystem\<close>

text \<open>
  Exceptions are values. \<open>OSError\<close> carries the \<open>errno\<close> that decides its Python class:
  \<^verbatim>\<open>PermissionError\<close> is the subclass of \<^verbatim>\<open>OSError\<close> raised for \<open>EACCES\<close> and \<open>EPERM\<close>.
  \<open>WinError\<close> stands for \<^verbatim>\<open>pywintypes.error\<close>, which is not an \<^verbatim>\<open>OSError\<close>.
\<close>

datatype errno = EPERM | ENOENT | EIO | EACCES | ENOTDIR | ELOOP

datatype exn =
    OSError errno
  | KeyError
  | TypeError
  | IndexError
  | ImportError
  | UnboundLocalError
  | RuntimeError
  | WinError

definition isinstance_PermissionError :: "exn \<Rightarrow> bool" where
  "isinstance_PermissionError exc =
     (case exc of OSError n \<Rightarrow> n = EACCES \<or> n = EPERM | _ \<Rightarrow> False)"

definition isinstance_OSError :: "exn \<Rightarrow> bool" where
  "isinstance_OSError exc = (case exc of OSError n \<Rightarrow> True | _ \<Rightarrow> False)"

text \<open>
  The fields of \<^verbatim>\<open>os.stat_result\<close> the walker reads. The three timestamps are only
  handed on to \<^verbatim>\<open>datetime.fromtimestamp\<close>; they are kept as integers (epoch seconds),
  and \<open>fromtimestamp\<close> is a constructor: the calendar conversion is not computed, and
  its range errors, which the timestamps of a file do not meet, are not modelled.
\<close>

type_synonym timestamp = int

datatype datetime = fromtimestamp timestamp

record stat_result =
  st_mode :: int
  st_size :: int
  st_uid :: int
  st_ctime :: timestamp
  st_atime :: timestamp
  st_mtime :: timestamp

text \<open>
  What the operating system answers about one directory: \<^verbatim>\<open>os.stat\<close> on it,
  whether \<^verbatim>\<open>os.listdir\<close> on it raises (its entries exist all the same), and
  \<^verbatim>\<open>os.path.ismount\<close>.
\<close>

record dir_attrs =
  dir_stat :: "errno + stat_result"
  dir_listdir_error :: "errno option"
  dir_ismount :: bool

text \<open>
  The directory tree below a root, as \<^verbatim>\<open>os.listdir\<close> enumerates it (names in the
  order the system yields them). A symbolic link is a leaf that carries its target path,
  whatever that path names: an ancestor, a directory elsewhere, a file, or nothing.
  \<open>Regular\<close> is any other entry that is not a directory, with what \<^verbatim>\<open>os.stat\<close> answers
  on it. Directories cannot be hard-linked, so without following links the structure is
  a finite tree.
\<close>

datatype node =
    Symlink string
  | Regular "errno + stat_result"
  | Directory dir_attrs "(string \<times> node) list"

text \<open>
  The rest of the environment: \<^verbatim>\<open>os.name\<close>, \<^verbatim>\<open>platform.system()\<close>, the password
  database behind \<^verbatim>\<open>pwd.getpwuid(uid).pw_name\<close>, the Windows owner lookup
  (\<^verbatim>\<open>import win32security\<close>, \<^verbatim>\<open>GetFileSecurity\<close>, \<^verbatim>\<open>LookupAccountSid\<close>) by path,
  \<^verbatim>\<open>str(path.resolve())\<close> by path, and the table \<^verbatim>\<open>identifiers.IDENTIFIERS\<close>, a module
  of the repository that the walker only reads.
\<close>

record env =
  os_name :: string
  platform_system :: string
  pwd_getpwuid :: "int \<Rightarrow> exn + string"
  win32_owner :: "string \<Rightarrow> exn + string"
  resolve :: "string \<Rightarrow> exn + string"
  IDENTIFIERS :: "string \<Rightarrow> string option"

text \<open>What the program prints, one entry per \<^verbatim>\<open>print\<close> call.\<close>

datatype log_entry =
    PrintExc exn
  | PrintSkipping string
  | PrintFailed string exn
  | PrintUpdated

subsection \<open>Path arithmetic\<close>

text \<open>
  Paths are the strings \<^verbatim>\<open>str(path)\<close> of normalised \<^verbatim>\<open>pathlib\<close> paths. The library's
  path arithmetic is modelled for POSIX: \<^verbatim>\<open>Path(s)\<close> of a string in normal form is that
  string, \<^verbatim>\<open>.name\<close> is the last component (empty for the root), \<^verbatim>\<open>.joinpath(item)\<close>
  appends one name returned by \<^verbatim>\<open>os.listdir\<close>. \<^verbatim>\<open>os.path.splitext\<close> is
  \<^verbatim>\<open>genericpath._splitext\<close> with \<open>sep = '/'\<close>, no \<open>altsep\<close> and \<open>extsep = '.'\<close>;
  \<^verbatim>\<open>str.lower\<close> is modelled on ASCII letters. On Windows the library forms these
  strings by the rules of \<^verbatim>\<open>ntpath\<close> (drives, backslashes), which are not modelled: the
  path strings and the depth that the model computes are those of POSIX. The control
  flow of the walker reads none of them.
\<close>

definition Path :: "string \<Rightarrow> string" where
  "Path s = s"

definition path_name :: "string \<Rightarrow> string" where
  "path_name p = rev (takeWhile (\<lambda>c. c \<noteq> sep) (rev p))"

definition joinpath :: "string \<Rightarrow> string \<Rightarrow> string" where
  "joinpath rootdir item = (if rootdir = [sep] then rootdir @ item else rootdir @ [sep] @ item)"

definition splitext_ext :: "string \<Rightarrow> string" where
  "splitext_ext p =
     (let sepIndex = rfind p sep;
          dotIndex = rfind p (CHR ''.'')
      in if dotIndex > sepIndex
            \<and> list_ex (\<lambda>c. c \<noteq> CHR ''.'')
                 (take (nat (dotIndex - (sepIndex + 1))) (drop (nat (sepIndex + 1)) p))
         then drop (nat dotIndex) p
         else [])"

definition char_lower :: "char \<Rightarrow> char" where
  "char_lower c =
     (let n = (of_char c :: nat) in if 65 \<le> n \<and> n \<le> 90 then char_of (n + 32) else c)"

definition str_lower :: "string \<Rightarrow> string" where
  "str_lower s = map char_lower s"

section \<open>Boundary policy\<close>

text \<open>
  \<^verbatim>\<open>is_path_in_filesystems\<close>. \<open>startswith_any\<close> is the \<open>for\<close> loop with its early
  \<^verbatim>\<open>return True\<close>. Everything after the platform test sits in
  \<^verbatim>\<open>try: ... except Exception\<close>: a failing \<^verbatim>\<open>path.resolve()\<close> and the
  \<^verbatim>\<open>TypeError\<close> of iterating \<^verbatim>\<open>None\<close> are both printed, and the function falls through
  to \<^verbatim>\<open>return False\<close>. The result is the returned boolean and the lines printed.
\<close>

definition startswith :: "string \<Rightarrow> string \<Rightarrow> bool" where
  "startswith s pre = (take (length pre) s = pre)"

fun startswith_any :: "string \<Rightarrow> string list \<Rightarrow> bool" where
  "startswith_any start_dir [] = False"
| "startswith_any start_dir (fs # rest) =
     (if startswith start_dir fs then True else startswith_any start_dir rest)"

definition is_path_in_filesystems :: "env \<Rightarrow> string \<Rightarrow> string list option \<Rightarrow> bool \<times> log_entry list" where
  "is_path_in_filesystems e path filesystems =
     (if platform_system e = ''Windows'' then (True, [])
      else
        (case resolve e path of
           Inl exc \<Rightarrow> (False, [PrintExc exc])
         | Inr start_dir \<Rightarrow>
             (case filesystems of
                None \<Rightarrow> (False, [PrintExc TypeError])
              | Some fss \<Rightarrow> (startswith_any start_dir fss, []))))"

section \<open>Persistence gateway\<close>

text \<open>
  The three tables of \<^verbatim>\<open>create_database\<close>, a row per record, a table as the list of its
  rows in insertion order. \<^verbatim>\<open>directories\<close> and \<^verbatim>\<open>files\<close> declare no uniqueness
  constraint besides \<^verbatim>\<open>id INTEGER PRIMARY KEY\<close>; \<^verbatim>\<open>tags\<close> has
  \<^verbatim>\<open>file_id INTEGER PRIMARY KEY\<close>. Foreign keys are not enforced by SQLite unless
  switched on, which the source does not do. A failure of the storage itself
  (\<^verbatim>\<open>sqlite3.Error\<close>) is outside the model: every statement is carried out.
\<close>

record directories_row =
  directories_id :: int
  directories_parent_id :: "int option"
  directories_directory_name :: string
  directories_full_path :: string
  directories_permission :: int

record files_row =
  files_id :: int
  files_directory_id :: "int option"
  files_file_name :: string
  files_file_path :: string
  files_size :: int
  files_permission :: int

record tags_row =
  tags_file_id :: int
  tags_identifiers :: "string option"
  tags_size :: string
  tags_format :: string
  tags_created :: datetime
  tags_accessed :: datetime
  tags_modified :: datetime
  tags_owner :: string
  tags_indent :: int

record database =
  directories :: "directories_row list"
  files :: "files_row list"
  tags :: "tags_row list"

text \<open>
  An open connection: the tables, and SQLite's \<^verbatim>\<open>last_insert_rowid\<close> of the
  connection, which is what \<^verbatim>\<open>cursor.lastrowid\<close> reads after an \<^verbatim>\<open>INSERT\<close>,
  also after one that \<^verbatim>\<open>OR IGNORE\<close> skipped.
\<close>

record connection = database +
  last_insert_rowid :: int

definition empty_database :: database where
  "empty_database = \<lparr>directories = [], files = [], tags = []\<rparr>"

text \<open>
  \<^verbatim>\<open>create_database\<close> runs \<^verbatim>\<open>CREATE TABLE IF NOT EXISTS\<close> three times: tables that
  exist keep their rows.
\<close>

definition create_database :: "database \<Rightarrow> database" where
  "create_database db = db"

definition sqlite3_connect :: "database \<Rightarrow> connection" where
  "sqlite3_connect db =
     \<lparr>directories = directories db, files = files db, tags = tags db, last_insert_rowid = 0\<rparr>"

definition commit :: "connection \<Rightarrow> database" where
  "commit c = \<lparr>directories = directories c, files = files c, tags = tags c\<rparr>"

text \<open>
  The row id SQLite assigns when the \<^verbatim>\<open>INTEGER PRIMARY KEY\<close> column is not given:
  one more than the largest in the table, 1 in an empty table.
\<close>

definition next_rowid :: "int list \<Rightarrow> int" where
  "next_rowid ids = (case ids of [] \<Rightarrow> 1 | x # xs \<Rightarrow> fold max xs x + 1)"

text \<open>
  \<^verbatim>\<open>insert_directory\<close> and \<^verbatim>\<open>insert_file\<close>: \<^verbatim>\<open>INSERT OR IGNORE\<close> skips a row only
  when it violates a uniqueness or \<^verbatim>\<open>NOT NULL\<close> constraint. The id is assigned fresh
  and the names and paths are Python strings, so no constraint of these two tables can be
  violated and the row is always added. Both return \<^verbatim>\<open>c.lastrowid\<close>.
\<close>

definition insert_directory ::
  "connection \<Rightarrow> int option \<Rightarrow> string \<Rightarrow> string \<Rightarrow> int \<Rightarrow> connection \<times> int" where
  "insert_directory c parent_id directory_name full_path permission =
     (let rowid = next_rowid (map directories_id (directories c));
          row = \<lparr>directories_id = rowid, directories_parent_id = parent_id,
                 directories_directory_name = directory_name,
                 directories_full_path = full_path,
                 directories_permission = permission\<rparr>;
          c' = c\<lparr>directories := directories c @ [row], last_insert_rowid := rowid\<rparr>
      in (c', last_insert_rowid c'))"

definition insert_file ::
  "connection \<Rightarrow> int option \<Rightarrow> string \<Rightarrow> string \<Rightarrow> int \<Rightarrow> int \<Rightarrow> connection \<times> int" where
  "insert_file c directory_id file_name file_path size' permission =
     (let rowid = next_rowid (map files_id (files c));
          row = \<lparr>files_id = rowid, files_directory_id = directory_id,
                 files_file_name = file_name, files_file_path = file_path,
                 files_size = size', files_permission = permission\<rparr>;
          c' = c\<lparr>files := files c @ [row], last_insert_rowid := rowid\<rparr>
      in (c', last_insert_rowid c'))"

text \<open>
  \<^verbatim>\<open>insert_tag\<close>: the row is skipped when a tag with this \<^verbatim>\<open>file_id\<close> exists (the
  primary key), and then \<^verbatim>\<open>last_insert_rowid\<close> keeps its value.
\<close>

definition insert_tag ::
  "env \<Rightarrow> connection \<Rightarrow> int \<Rightarrow> string \<Rightarrow> string \<Rightarrow> timestamp \<Rightarrow> timestamp \<Rightarrow> timestamp
     \<Rightarrow> string \<Rightarrow> int \<Rightarrow> connection \<times> int" where
  "insert_tag e c file_id file_size file_format file_created file_accessed file_modified
       file_owner file_indent =
     (let file_creation_datetime = fromtimestamp file_created;
          file_accessed_datetime = fromtimestamp file_accessed;
          file_modified_datetime = fromtimestamp file_modified;
          file_identifiers = IDENTIFIERS e file_format;
          row = \<lparr>tags_file_id = file_id, tags_identifiers = file_identifiers,
                 tags_size = file_size, tags_format = file_format,
                 tags_created = file_creation_datetime,
                 tags_accessed = file_accessed_datetime,
                 tags_modified = file_modified_datetime,
                 tags_owner = file_owner, tags_indent = file_indent\<rparr>;
          c' = (if file_id \<in> set (map tags_file_id (tags c)) then c
                else c\<lparr>tags := tags c @ [row], last_insert_rowid := file_id\<rparr>)
      in (c', last_insert_rowid c'))"

section \<open>Tree walker\<close>

text \<open>
  The state every call works on: the open connection and what has been printed. A call
  that raises has still changed it, so the state is returned beside the exception.
\<close>

record world =
  conn :: connection
  stdout :: "log_entry list"

definition print :: "world \<Rightarrow> log_entry list \<Rightarrow> world" where
  "print w entries = w\<lparr>stdout := stdout w @ entries\<rparr>"

text \<open>
  Lines 157-167: the owner of a file. No branch sets \<^verbatim>\<open>file_owner\<close> when
  \<^verbatim>\<open>os.name\<close> is neither \<^verbatim>\<open>'posix'\<close> nor \<^verbatim>\<open>'nt'\<close>, and reading the variable on line
  170 raises \<^verbatim>\<open>UnboundLocalError\<close>. No \<open>try\<close> surrounds these lines.
\<close>

definition resolve_owner :: "env \<Rightarrow> string \<Rightarrow> stat_result \<Rightarrow> exn + string" where
  "resolve_owner e item_path file_stat =
     (if os_name e = ''posix'' then pwd_getpwuid e (st_uid file_stat)
      else if os_name e = ''nt'' then win32_owner e item_path
      else Inl UnboundLocalError)"

text \<open>
  Lines 146-170, the \<open>else\<close> branch of the loop body for one entry: \<^verbatim>\<open>os.stat\<close>,
  \<^verbatim>\<open>insert_file\<close>, the derived fields, the owner, \<^verbatim>\<open>insert_tag\<close>. The second component
  is the exception that leaves the branch, if any.
\<close>

definition index_file ::
  "env \<Rightarrow> world \<Rightarrow> string \<Rightarrow> string \<Rightarrow> errno + stat_result \<Rightarrow> int option \<Rightarrow> world \<times> exn option" where
  "index_file e w item item_path stat parent_id =
     (case stat of
        Inl n \<Rightarrow> (w, Some (OSError n))
      | Inr file_stat \<Rightarrow>
          (let (c1, file_id) = insert_file (conn w) parent_id item item_path
                                 (st_size file_stat) (st_mode file_stat);
               file_size = get_file_size_category (st_size file_stat);
               file_format = str_lower (drop 1 (splitext_ext item_path));
               file_created = st_ctime file_stat;
               file_accessed = st_atime file_stat;
               file_modified = st_mtime file_stat;
               file_indent = get_folder_depth item_path
           in case resolve_owner e item_path file_stat of
                Inl exc \<Rightarrow> (w\<lparr>conn := c1\<rparr>, Some exc)
              | Inr file_owner \<Rightarrow>
                  (let (c2, tag_id) = insert_tag e c1 file_id file_size file_format file_created
                                        file_accessed file_modified file_owner file_indent
                   in (w\<lparr>conn := c2\<rparr>, None))))"

text \<open>
  Line 135: \<^verbatim>\<open>os.path.ismount(item_path) and not is_path_in_filesystems(...)\<close>. The
  second operand is evaluated, and prints, only when the first is true.
\<close>

definition skip_mount :: "env \<Rightarrow> world \<Rightarrow> string \<Rightarrow> dir_attrs \<Rightarrow> string list option \<Rightarrow> bool \<times> world" where
  "skip_mount e w item_path attrs filesystems =
     (if dir_ismount attrs
      then (let (inside, printed) = is_path_in_filesystems e item_path filesystems
            in (\<not> inside, print w printed))
      else (False, w))"

text \<open>
  \<^verbatim>\<open>get_directory_structure\<close> and its \<open>for\<close> loop. The loop returns the state, the
  value of the local variable \<^verbatim>\<open>parent_id\<close> when it ended, and the exception that ended
  it, if any: the handler on line 172 and the \<^verbatim>\<open>return parent_id\<close> on line 174 read
  that variable.

  In the loop, \<^verbatim>\<open>os.path.islink\<close> is true of a \<open>Symlink\<close>. \<^verbatim>\<open>os.path.isdir\<close> is true of
  a \<open>Directory\<close> that \<^verbatim>\<open>os.stat\<close> can read; it answers false when \<^verbatim>\<open>os.stat\<close> raises,
  and the entry then takes the \<open>else\<close> branch, where \<^verbatim>\<open>os.stat\<close> raises.
\<close>

fun get_directory_structure ::
  "env \<Rightarrow> world \<Rightarrow> string \<Rightarrow> dir_attrs \<Rightarrow> (string \<times> node) list \<Rightarrow> string list option
     \<Rightarrow> int option \<Rightarrow> world \<times> (exn + int option)"
and directory_loop ::
  "env \<Rightarrow> world \<Rightarrow> string \<Rightarrow> (string \<times> node) list \<Rightarrow> string list option
     \<Rightarrow> int option \<Rightarrow> world \<times> int option \<times> exn option"
where
  "get_directory_structure e w rootdir attrs entries filesystems parent_id =
     (case
        (case dir_stat attrs of
           Inl n \<Rightarrow> (w, parent_id, Some (OSError n))
         | Inr dstat \<Rightarrow>
             (let (c1, new_id) =
                    (case parent_id of
                       None \<Rightarrow> insert_directory (conn w) None (path_name rootdir) rootdir
                                 (st_mode dstat)
                     | Some p \<Rightarrow> insert_directory (conn w) (Some p) (path_name rootdir) rootdir
                                 (st_mode dstat));
                  w1 = w\<lparr>conn := c1\<rparr>
              in case dir_listdir_error attrs of
                   Some n \<Rightarrow> (w1, Some new_id, Some (OSError n))
                 | None \<Rightarrow> directory_loop e w1 rootdir entries filesystems (Some new_id)))
      of
        (w', parent_id', None) \<Rightarrow> (w', Inr parent_id')
      | (w', parent_id', Some exc) \<Rightarrow>
          if isinstance_PermissionError exc then (print w' [PrintExc exc], Inr parent_id')
          else (w', Inl exc))"
| "directory_loop e w rootdir [] filesystems parent_id = (w, parent_id, None)"
| "directory_loop e w rootdir ((item, Symlink target) # rest) filesystems parent_id =
     directory_loop e w rootdir rest filesystems parent_id"
| "directory_loop e w rootdir ((item, Directory attrs entries) # rest) filesystems parent_id =
     (let item_path = joinpath rootdir item in
      case dir_stat attrs of
        Inl n \<Rightarrow>
          (case index_file e w item item_path (dir_stat attrs) parent_id of
             (w', None) \<Rightarrow> directory_loop e w' rootdir rest filesystems parent_id
           | (w', Some exc) \<Rightarrow> (w', parent_id, Some exc))
      | Inr dstat \<Rightarrow>
          (case skip_mount e w item_path attrs filesystems of
             (True, w1) \<Rightarrow>
               directory_loop e (print w1 [PrintSkipping item_path]) rootdir rest filesystems
                 parent_id
           | (False, w1) \<Rightarrow>
               (case get_directory_structure e w1 item_path attrs entries filesystems parent_id of
                  (w2, Inr parent_id') \<Rightarrow> directory_loop e w2 rootdir rest filesystems parent_id'
                | (w2, Inl exc) \<Rightarrow>
                    if isinstance_OSError exc
                    then directory_loop e (print w2 [PrintFailed item_path exc]) rootdir rest
                           filesystems parent_id
                    else (w2, parent_id, Some exc))))"
| "directory_loop e w rootdir ((item, Regular stat) # rest) filesystems parent_id =
     (let item_path = joinpath rootdir item in
      case index_file e w item item_path stat parent_id of
        (w', None) \<Rightarrow> directory_loop e w' rootdir rest filesystems parent_id
      | (w', Some exc) \<Rightarrow> (w', parent_id, Some exc))"

section \<open>The run\<close>

text \<open>
  Lines 198-199, the list comprehension
  \<^verbatim>\<open>[fs for fs in filesystems if len(fs) <= 4 and fs[1] == ":"]\<close>. \<^verbatim>\<open>and\<close> evaluates
  \<^verbatim>\<open>fs[1]\<close> only when the length test holds, and \<^verbatim>\<open>fs[1]\<close> raises \<^verbatim>\<open>IndexError\<close> on a
  string shorter than two characters; an exception ends the comprehension.
\<close>

fun filter_filesystems :: "string list \<Rightarrow> exn + string list" where
  "filter_filesystems [] = Inr []"
| "filter_filesystems (fs # rest) =
     (if length fs \<le> 4
      then (if length fs < 2 then Inl IndexError
            else if fs ! 1 = CHR '':''
              then (case filter_filesystems rest of
                      Inl exc \<Rightarrow> Inl exc
                    | Inr kept \<Rightarrow> Inr (fs # kept))
              else filter_filesystems rest)
      else filter_filesystems rest)"

definition backslash :: char where
  "backslash = CHR 0x5C"

text \<open>
  The loop of lines 208-209 over the roots. \<open>tree\<close> gives, for a root path, what the
  operating system answers about that directory and the entries below it. An exception
  that leaves \<^verbatim>\<open>get_directory_structure\<close> is not handled anywhere in \<^verbatim>\<open>main\<close>.
\<close>

fun walk_roots ::
  "env \<Rightarrow> (string \<Rightarrow> dir_attrs \<times> (string \<times> node) list) \<Rightarrow> world \<Rightarrow> string list
     \<Rightarrow> string list option \<Rightarrow> world \<times> exn option" where
  "walk_roots e tree w [] filesystems = (w, None)"
| "walk_roots e tree w (root_directory # rest) filesystems =
     (case get_directory_structure e w root_directory (fst (tree root_directory))
             (snd (tree root_directory)) filesystems None of
        (w', Inl exc) \<Rightarrow> (w', Some exc)
      | (w', Inr returned) \<Rightarrow> walk_roots e tree w' rest filesystems)"

text \<open>
  \<^verbatim>\<open>main\<close>, run against the store \<open>db\<close> that the file \<^verbatim>\<open>file_index.db\<close> holds (the
  empty one when the file is new). The result is the exception that ends the process,
  or the committed store and the lines printed.
\<close>

definition main ::
  "env \<Rightarrow> (string \<Rightarrow> dir_attrs \<times> (string \<times> node) list) \<Rightarrow> database \<Rightarrow> string list option
     \<Rightarrow> exn + database \<times> log_entry list" where
  "main e tree db filesystems =
     (case
        (if platform_system e = ''Windows''
         then (case filesystems of
                 None \<Rightarrow> Inr ([Path (''C:'' @ [backslash])], None)
               | Some fss \<Rightarrow>
                   (case filter_filesystems fss of
                      Inl exc \<Rightarrow> Inl exc
                    | Inr kept \<Rightarrow>
                        Inr ([Path (''C:'' @ [backslash])]
                               @ map (\<lambda>fs. Path (fs @ [backslash])) kept,
                             Some kept)))
         else Inr ([Path ''/''], filesystems))
      of
        Inl exc \<Rightarrow> Inl exc
      | Inr (root_directories, filesystems') \<Rightarrow>
          (let c = sqlite3_connect (create_database db) in
           case walk_roots e tree \<lparr>conn = c, stdout = []\<rparr> root_directories filesystems' of
             (w, Some exc) \<Rightarrow> Inl exc
           | (w, None) \<Rightarrow> Inr (commit (conn w), stdout w @ [PrintUpdated])))"

section \<open>Concrete environments and trees\<close>

text \<open>
  A POSIX system whose password database knows uid 0 only, and a Windows system; on
  both, \<^verbatim>\<open>resolve\<close> leaves a path as it is. The format table knows \<^verbatim>\<open>txt\<close>.
\<close>

definition posix_env :: env where
  "posix_env =
     \<lparr>os_name = ''posix'', platform_system = ''Linux'',
      pwd_getpwuid = (\<lambda>uid. if uid = 0 then Inr ''root'' else Inl KeyError),
      win32_owner = (\<lambda>p. Inl ImportError),
      resolve = (\<lambda>p. Inr p),
      IDENTIFIERS = (\<lambda>ext. if ext = ''txt'' then Some ''text'' else None)\<rparr>"

definition windows_env :: env where
  "windows_env =
     \<lparr>os_name = ''nt'', platform_system = ''Windows'',
      pwd_getpwuid = (\<lambda>uid. Inl ImportError),
      win32_owner = (\<lambda>p. Inr ''Administrators''),
      resolve = (\<lambda>p. Inr p),
      IDENTIFIERS = (\<lambda>ext. if ext = ''txt'' then Some ''text'' else None)\<rparr>"

text \<open>
  A regular file of the given size and owner, a readable directory, a directory whose
  listing is denied, and a mount point.
\<close>

definition example_stat :: "int \<Rightarrow> int \<Rightarrow> stat_result" where
  "example_stat sz uid =
     \<lparr>st_mode = 33188, st_size = sz, st_uid = uid, st_ctime = 1700000000,
      st_atime = 1700000001, st_mtime = 1700000002\<rparr>"

definition plain_dir :: dir_attrs where
  "plain_dir =
     \<lparr>dir_stat = Inr (example_stat 4096 0\<lparr>st_mode := 16877\<rparr>), dir_listdir_error = None,
      dir_ismount = False\<rparr>"

definition locked_dir :: dir_attrs where
  "locked_dir = plain_dir\<lparr>dir_listdir_error := Some EACCES\<rparr>"

definition mount_dir :: dir_attrs where
  "mount_dir = plain_dir\<lparr>dir_ismount := True\<rparr>"

text \<open>
  The state of a walk right after the row of the root \<open>/\<close> has been inserted into an
  empty store.
\<close>

definition root_row :: directories_row where
  "root_row =
     \<lparr>directories_id = 1, directories_parent_id = None, directories_directory_name = [],
      directories_full_path = ''/'', directories_permission = 16877\<rparr>"

definition after_root :: world where
  "after_root =
     \<lparr>conn = \<lparr>directories = [root_row], files = [], tags = [], last_insert_rowid = 1\<rparr>,
      stdout = []\<rparr>"

text \<open>
  Three trees below \<open>/\<close>: one file \<open>a.txt\<close> of 10 bytes owned by uid 0; the directory
  \<open>sub\<close> holding the directory \<open>deep\<close>, followed by the file \<open>f.txt\<close>; and a file
  whose owner, uid 7, the password database does not know, followed by a second file.
\<close>

definition one_file_tree :: "string \<Rightarrow> dir_attrs \<times> (string \<times> node) list" where
  "one_file_tree root = (plain_dir, [(''a.txt'', Regular (Inr (example_stat 10 0)))])"

definition nested_tree :: "string \<Rightarrow> dir_attrs \<times> (string \<times> node) list" where
  "nested_tree root =
     (plain_dir,
      [(''sub'', Directory plain_dir [(''deep'', Directory plain_dir [])]),
       (''f.txt'', Regular (Inr (example_stat 10 0)))])"

definition unknown_owner_tree :: "string \<Rightarrow> dir_attrs \<times> (string \<times> node) list" where
  "unknown_owner_tree root =
     (plain_dir,
      [(''a.txt'', Regular (Inr (example_stat 10 7))),
       (''b.txt'', Regular (Inr (example_stat 10 0)))])"

text \<open>The store after one run and after two runs over \<open>one_file_tree\<close>.\<close>

definition a_txt_file :: "int \<Rightarrow> files_row" where
  "a_txt_file n =
     \<lparr>files_id = n, files_directory_id = Some n, files_file_name = ''a.txt'',
      files_file_path = ''/a.txt'', files_size = 10, files_permission = 33188\<rparr>"

definition a_txt_tag :: "int \<Rightarrow> tags_row" where
  "a_txt_tag n =
     \<lparr>tags_file_id = n, tags_identifiers = Some ''text'', tags_size = ''Tiny'',
      tags_format = ''txt'', tags_created = fromtimestamp 1700000000,
      tags_accessed = fromtimestamp 1700000001, tags_modified = fromtimestamp 1700000002,
      tags_owner = ''root'', tags_indent = 1\<rparr>"

definition first_run :: database where
  "first_run = \<lparr>directories = [root_row], files = [a_txt_file 1], tags = [a_txt_tag 1]\<rparr>"

definition second_run :: database where
  "second_run =
     \<lparr>directories = [root_row, root_row\<lparr>directories_id := 2\<rparr>],
      files = [a_txt_file 1, a_txt_file 2], tags = [a_txt_tag 1, a_txt_tag 2]\<rparr>"

text \<open>
  An absolute POSIX path from its segments: \<open>/\<close> for none, \<open>/a/b\<close> for \<open>a\<close> and
  \<open>b\<close>.
\<close>

definition posix_path :: "string list \<Rightarrow> string" where
  "posix_path segs = (if segs = [] then [sep] else concat (map (\<lambda>s. sep # s) segs))"

text \<open>
  The path segments of a string, as the specification counts them: the non-empty names
  between separators, the root not among them. A string is an absolute path in normal
  form when writing its segments out with \<open>posix_path\<close> gives the string back.
\<close>

fun split_sep :: "string \<Rightarrow> string list" where
  "split_sep [] = [[]]"
| "split_sep (c # cs) =
     (if c = sep then [] # split_sep cs
      else (case split_sep cs of [] \<Rightarrow> [[c]] | s # ss \<Rightarrow> (c # s) # ss))"

definition path_segments :: "string \<Rightarrow> string list" where
  "path_segments p = filter (\<lambda>s. s \<noteq> []) (split_sep p)"

text \<open>
  A string that ends with a separator although it holds a name: a form that
  \<^verbatim>\<open>pathlib\<close> never yields.
\<close>

definition trailing_separator :: "string \<Rightarrow> bool" where
  "trailing_separator p = (p \<noteq> [] \<and> last p = sep \<and> \<not> set p \<subseteq> {sep})"

text \<open>
  A listing without its symbolic links, at every depth.
\<close>

fun strip_links :: "(string \<times> node) list \<Rightarrow> (string \<times> node) list" where
  "strip_links [] = []"
| "strip_links ((item, Symlink target) # rest) = strip_links rest"
| "strip_links ((item, Regular stat) # rest) = (item, Regular stat) # strip_links rest"
| "strip_links ((item, Directory attrs entries) # rest) =
     (item, Directory attrs (strip_links entries)) # strip_links rest"

text \<open>
  A listing without the subdirectories that are mount points, at every depth: the
  entries that \<^verbatim>\<open>os.path.isdir\<close> and \<^verbatim>\<open>os.path.ismount\<close> both answer true for. A tree
  is pruned below its root; the root itself stays.
\<close>

fun prune_mounts :: "(string \<times> node) list \<Rightarrow> (string \<times> node) list" where
  "prune_mounts [] = []"
| "prune_mounts ((item, Symlink target) # rest) = (item, Symlink target) # prune_mounts rest"
| "prune_mounts ((item, Regular stat) # rest) = (item, Regular stat) # prune_mounts rest"
| "prune_mounts ((item, Directory attrs entries) # rest) =
     (if dir_ismount attrs \<and> (case dir_stat attrs of Inl n \<Rightarrow> False | Inr dstat \<Rightarrow> True)
      then prune_mounts rest
      else (item, Directory attrs (prune_mounts entries)) # prune_mounts rest)"

definition prune_tree ::
  "(string \<Rightarrow> dir_attrs \<times> (string \<times> node) list) \<Rightarrow> string \<Rightarrow> dir_attrs \<times> (string \<times> node) list" where
  "prune_tree tree root = (fst (tree root), prune_mounts (snd (tree root)))"

text \<open>
  Two outcomes of a call agree on the store and on what is returned or raised; they may
  differ in what was printed.
\<close>

definition same_store :: "world \<times> 'a \<Rightarrow> world \<times> 'a \<Rightarrow> bool" where
  "same_store r r' = (conn (fst r) = conn (fst r') \<and> snd r = snd r')"

text \<open>
  A tree with two mount points: \<open>/sub/mnt\<close>, one level down and holding a file, and
  \<open>/proc\<close>.
\<close>

definition mount_tree :: "string \<Rightarrow> dir_attrs \<times> (string \<times> node) list" where
  "mount_tree root =
     (plain_dir,
      [(''sub'', Directory plain_dir
          [(''mnt'', Directory mount_dir [(''x.txt'', Regular (Inr (example_stat 10 0)))])]),
       (''proc'', Directory mount_dir [(''cpuinfo'', Regular (Inr (example_stat 0 0)))])])"

section \<open>Properties of the classifier\<close>

text \<open>
  C5. For every byte size \<open>s \<ge> 0\<close> the size category follows the binary thresholds:
  0 is Empty; up to 16 KiB Tiny; up to 1 MiB Small; up to 128 MiB Medium; up to
  1 GiB Large; up to 4 GiB Huge; above that Gigantic. Every \<open>s \<ge> 0\<close> falls in exactly
  one of the seven ranges, so the function is total on sizes. The three boundary values
  of the claim are the last three conjuncts.
\<close>

theorem size_category_buckets:
  assumes "0 \<le> s"
  shows "(s = 0 \<longrightarrow> get_file_size_category s = ''Empty'')
    \<and> (0 < s \<and> s \<le> 16 * 1024 \<longrightarrow> get_file_size_category s = ''Tiny'')
    \<and> (16 * 1024 < s \<and> s \<le> 1024 ^ 2 \<longrightarrow> get_file_size_category s = ''Small'')
    \<and> (1024 ^ 2 < s \<and> s \<le> 128 * 1024 ^ 2 \<longrightarrow> get_file_size_category s = ''Medium'')
    \<and> (128 * 1024 ^ 2 < s \<and> s \<le> 1024 ^ 3 \<longrightarrow> get_file_size_category s = ''Large'')
    \<and> (1024 ^ 3 < s \<and> s \<le> 4 * 1024 ^ 3 \<longrightarrow> get_file_size_category s = ''Huge'')
    \<and> (4 * 1024 ^ 3 < s \<longrightarrow> get_file_size_category s = ''Gigantic'')
    \<and> get_file_size_category (16 * 1024) = ''Tiny''
    \<and> get_file_size_category (16 * 1024 + 1) = ''Small''
    \<and> get_file_size_category (4 * 1024 * 1024 * 1024 + 1) = ''Gigantic''"
  using assms by (simp add: get_file_size_category_def)

theorem size_category_buckets_witness:
  "get_file_size_category 0 = ''Empty''
   \<and> get_file_size_category 10 = ''Tiny''
   \<and> get_file_size_category (2 * 1024 ^ 2) = ''Medium''
   \<and> get_file_size_category (1024 ^ 3) = ''Large''
   \<and> get_file_size_category (3 * 1024 ^ 3) = ''Huge''"
  using size_category_buckets [of 0] size_category_buckets [of 10]
    size_category_buckets [of "2 * 1024 ^ 2"] size_category_buckets [of "1024 ^ 3"]
    size_category_buckets [of "3 * 1024 ^ 3"]
  by simp

subsection \<open>Folder depth\<close>

lemma rfind_last_sep: "sep \<notin> set s \<Longrightarrow> rfind (h @ sep # s) sep = int (length h)"
proof -
  assume s: "sep \<notin> set s"
  then have "takeWhile (\<lambda>x. x \<noteq> sep) (rev s @ sep # rev h) = rev s"
    by (subst takeWhile_append2) auto
  then show ?thesis
    by (simp add: rfind_def)
qed

lemma rstrip_snoc_sep: "rstrip (h @ [c]) c = rstrip h c"
  by (simp add: rstrip_def)

lemma rstrip_id: "h \<noteq> [] \<Longrightarrow> last h \<noteq> c \<Longrightarrow> rstrip h c = h"
proof -
  assume "h \<noteq> []" and "last h \<noteq> c"
  then have "hd (rev h) \<noteq> c" and "rev h \<noteq> []"
    by (simp_all add: hd_rev)
  then have "dropWhile (\<lambda>x. x = c) (rev h) = rev h"
    by (cases "rev h") simp_all
  then show ?thesis
    by (simp add: rstrip_def)
qed

lemma dirname_child:
  assumes "sep \<notin> set s"
  shows "dirname (h @ sep # s) =
           (if h @ [sep] = replicate (Suc (length h)) sep then h @ [sep] else rstrip h sep)"
proof -
  have r: "nat (rfind (h @ sep # s) sep + 1) = Suc (length h)"
    using assms by (simp add: rfind_last_sep)
  have t: "take (Suc (length h)) (h @ sep # s) = h @ [sep]"
    by simp
  show ?thesis
    unfolding dirname_def Let_def r t by (simp add: rstrip_snoc_sep)
qed

lemma dirname_root: "dirname [sep] = [sep]"
  by (simp add: dirname_def rfind_def Let_def)

lemma folder_depth_loop_acc: "folder_depth_loop p d = d + folder_depth_loop p 0"
proof (induction "length p" arbitrary: p d rule: less_induct)
  case less
  show ?case
  proof (cases "p \<noteq> dirname p")
    case True
    then have lt: "length (dirname p) < length p"
      by (rule dirname_shorter)
    have "folder_depth_loop p d = folder_depth_loop (dirname p) (d + 1)"
      using True by (subst folder_depth_loop.simps) simp
    also have "\<dots> = (d + 1) + folder_depth_loop (dirname p) 0"
      by (rule less [OF lt])
    finally have a: "folder_depth_loop p d = d + 1 + folder_depth_loop (dirname p) 0" .
    have "folder_depth_loop p 0 = folder_depth_loop (dirname p) (0 + 1)"
      using True by (subst folder_depth_loop.simps) simp
    also have "\<dots> = (0 + 1) + folder_depth_loop (dirname p) 0"
      by (rule less [OF lt])
    finally have b: "folder_depth_loop p 0 = 1 + folder_depth_loop (dirname p) 0"
      by simp
    from a b show ?thesis by simp
  next
    case False
    then show ?thesis
      by (subst (1 2) folder_depth_loop.simps) simp
  qed
qed

lemma get_folder_depth_step:
  "p \<noteq> dirname p \<Longrightarrow> get_folder_depth p = 1 + get_folder_depth (dirname p)"
proof -
  assume ne: "p \<noteq> dirname p"
  have "folder_depth_loop p 0 = folder_depth_loop (dirname p) (0 + 1)"
    using ne by (subst folder_depth_loop.simps) simp
  also have "\<dots> = (0 + 1) + folder_depth_loop (dirname p) 0"
    by (rule folder_depth_loop_acc)
  finally show ?thesis
    by (simp add: get_folder_depth_def)
qed

lemma get_folder_depth_fixed: "p = dirname p \<Longrightarrow> get_folder_depth p = 0"
  unfolding get_folder_depth_def by (subst folder_depth_loop.simps) simp

lemma concat_segments_last:
  assumes "segs \<noteq> []" and "\<forall>s \<in> set segs. s \<noteq> [] \<and> sep \<notin> set s"
  shows "concat (map (\<lambda>s. sep # s) segs) \<noteq> [] \<and> last (concat (map (\<lambda>s. sep # s) segs)) \<noteq> sep"
proof -
  obtain init l where segs: "segs = init @ [l]"
    using assms(1) by (metis rev_exhaust)
  with assms(2) have l: "l \<noteq> []" "sep \<notin> set l"
    by auto
  then have "last l \<noteq> sep"
    by (metis last_in_set)
  with l segs show ?thesis
    by simp
qed

lemma dirname_posix_path_snoc:
  assumes "\<forall>x \<in> set (segs @ [s]). x \<noteq> [] \<and> sep \<notin> set x"
  shows "dirname (posix_path (segs @ [s])) = posix_path segs"
proof (cases "segs = []")
  case True
  have "dirname ([] @ sep # s) = [sep]"
    using assms by (subst dirname_child) simp_all
  with True show ?thesis
    by (simp add: posix_path_def)
next
  case False
  define h where "h = concat (map (\<lambda>s. sep # s) segs)"
  have h: "h \<noteq> []" "last h \<noteq> sep"
    using concat_segments_last [OF False] assms by (simp_all add: h_def)
  then have "\<not> (h @ [sep] = replicate (Suc (length h)) sep)"
    by (metis last_in_set in_set_replicate set_append UnI1 list.set_intros(1))
  moreover have "sep \<notin> set s"
    using assms by simp
  ultimately have "dirname (h @ sep # s) = rstrip h sep"
    by (simp add: dirname_child)
  also have "\<dots> = h"
    using h by (rule rstrip_id)
  finally show ?thesis
    using False by (simp add: posix_path_def h_def)
qed

lemma posix_path_snoc_longer:
  "s \<noteq> [] \<Longrightarrow> length (posix_path segs) < length (posix_path (segs @ [s]))"
  by (simp add: posix_path_def)

lemma get_folder_depth_posix_path:
  assumes "\<forall>s \<in> set segs. s \<noteq> [] \<and> sep \<notin> set s"
  shows "get_folder_depth (posix_path segs) = int (length segs)"
  using assms
proof (induction segs rule: rev_induct)
  case Nil
  show ?case
    using get_folder_depth_fixed [of "[sep]"] by (simp add: posix_path_def dirname_root)
next
  case (snoc s segs)
  have d: "dirname (posix_path (segs @ [s])) = posix_path segs"
    using snoc.prems by (rule dirname_posix_path_snoc)
  have "posix_path (segs @ [s]) \<noteq> dirname (posix_path (segs @ [s]))"
    using posix_path_snoc_longer [of s segs] d snoc.prems by auto
  then have "get_folder_depth (posix_path (segs @ [s]))
               = 1 + get_folder_depth (dirname (posix_path (segs @ [s])))"
    by (rule get_folder_depth_step)
  with d snoc show ?case
    by simp
qed

lemma get_folder_depth_nonneg: "0 \<le> get_folder_depth p"
proof (induction "length p" arbitrary: p rule: less_induct)
  case less
  show ?case
  proof (cases "p = dirname p")
    case True
    then show ?thesis by (simp add: get_folder_depth_fixed)
  next
    case False
    then have "length (dirname p) < length p"
      by (simp add: dirname_shorter)
    then have "0 \<le> get_folder_depth (dirname p)"
      by (rule less)
    with False show ?thesis
      by (simp add: get_folder_depth_step)
  qed
qed

lemma folder_depth_counts_steps:
  "dirname ((dirname ^^ nat (get_folder_depth p)) p) = (dirname ^^ nat (get_folder_depth p)) p
   \<and> (\<forall>k < nat (get_folder_depth p). dirname ((dirname ^^ k) p) \<noteq> (dirname ^^ k) p)"
proof (induction "length p" arbitrary: p rule: less_induct)
  case less
  show ?case
  proof (cases "p = dirname p")
    case True
    then have "get_folder_depth p = 0"
      by (rule get_folder_depth_fixed)
    with True show ?thesis by simp
  next
    case False
    then have lt: "length (dirname p) < length p"
      by (simp add: dirname_shorter)
    define n where "n = nat (get_folder_depth (dirname p))"
    have n: "nat (get_folder_depth p) = Suc n"
      using False get_folder_depth_nonneg [of "dirname p"]
      by (simp add: get_folder_depth_step n_def)
    have ih: "dirname ((dirname ^^ n) (dirname p)) = (dirname ^^ n) (dirname p)
        \<and> (\<forall>k < n. dirname ((dirname ^^ k) (dirname p)) \<noteq> (dirname ^^ k) (dirname p))"
      using less [OF lt] by (simp add: n_def)
    have shift: "(dirname ^^ Suc k) p = (dirname ^^ k) (dirname p)" for k
      by (simp add: funpow_swap1)
    have "dirname ((dirname ^^ Suc n) p) = (dirname ^^ Suc n) p"
      using ih by (simp only: shift)
    moreover have "dirname ((dirname ^^ k) p) \<noteq> (dirname ^^ k) p" if "k < Suc n" for k
    proof (cases k)
      case 0
      with False show ?thesis by auto
    next
      case (Suc j)
      with that have "j < n" by simp
      with ih have step: "dirname ((dirname ^^ j) (dirname p)) \<noteq> (dirname ^^ j) (dirname p)"
        by blast
      show ?thesis
        unfolding Suc shift by (rule step)
    qed
    ultimately show ?thesis
      by (simp only: n) blast
  qed
qed

lemma split_sep_no_sep: "s \<in> set (split_sep p) \<Longrightarrow> sep \<notin> set s"
proof (induction p arbitrary: s)
  case Nil
  then show ?case by simp
next
  case (Cons c cs)
  show ?case
  proof (cases "c = sep")
    case True
    with Cons show ?thesis by auto
  next
    case False
    show ?thesis
    proof (cases "split_sep cs")
      case Nil
      with False Cons.prems show ?thesis by simp
    next
      case (Cons t ts)
      with False Cons.prems Cons.IH show ?thesis
        by (cases "s = c # t") auto
    qed
  qed
qed

lemma path_segments_are_segments: "\<forall>s \<in> set (path_segments p). s \<noteq> [] \<and> sep \<notin> set s"
  by (auto simp: path_segments_def dest: split_sep_no_sep)

lemma split_sep_not_Nil: "split_sep p \<noteq> []"
  by (induction p) (auto split: list.splits)

lemma split_sep_append: "split_sep (a @ sep # b) = split_sep a @ split_sep b"
proof (induction a)
  case Nil
  show ?case by simp
next
  case (Cons c cs)
  obtain t ts where "split_sep cs = t # ts"
    using split_sep_not_Nil [of cs] by (cases "split_sep cs") auto
  with Cons show ?case by simp
qed

lemma path_segments_append:
  "path_segments (a @ sep # b) = path_segments a @ path_segments b"
  by (simp add: path_segments_def split_sep_append)

lemma split_sep_name: "sep \<notin> set s \<Longrightarrow> split_sep s = [s]"
  by (induction s) auto

lemma path_segments_name: "sep \<notin> set s \<Longrightarrow> path_segments s = (if s = [] then [] else [s])"
  by (simp add: path_segments_def split_sep_name)

lemma path_segments_snoc_sep: "path_segments (h @ [sep]) = path_segments h"
  using path_segments_append [of h "[]"] by (simp add: path_segments_def)

lemma path_segments_seps: "path_segments (replicate n sep) = []"
proof (induction n)
  case 0
  show ?case by (simp add: path_segments_def)
next
  case (Suc n)
  have "replicate (Suc n) sep = replicate n sep @ [sep]"
    by (simp add: replicate_append_same)
  with Suc show ?case
    by (simp only: path_segments_snoc_sep)
qed

lemma path_segments_append_seps: "path_segments (h @ replicate k sep) = path_segments h"
proof (induction k)
  case 0
  show ?case by simp
next
  case (Suc k)
  have "h @ replicate (Suc k) sep = (h @ replicate k sep) @ [sep]"
    by (simp add: replicate_append_same)
  with Suc show ?case
    by (simp only: path_segments_snoc_sep)
qed

lemma rstrip_decompose: "\<exists>k. h = rstrip h c @ replicate k c"
proof -
  let ?t = "takeWhile (\<lambda>x. x = c) (rev h)"
  have all: "\<forall>y \<in> set ?t. y = c"
    by (auto dest: set_takeWhileD)
  then have t: "?t = replicate (length ?t) c"
    by (simp add: replicate_length_same)
  have "rev h = ?t @ dropWhile (\<lambda>x. x = c) (rev h)"
    by simp
  then have "rev (rev h) = rev (?t @ dropWhile (\<lambda>x. x = c) (rev h))"
    by (rule arg_cong)
  then have "h = rstrip h c @ rev ?t"
    by (simp only: rev_rev_ident rev_append rstrip_def)
  also have "rev ?t = replicate (length ?t) c"
    using t by (metis rev_replicate)
  finally show ?thesis ..
qed

lemma path_segments_rstrip: "path_segments (rstrip h sep) = path_segments h"
proof -
  obtain k where "h = rstrip h sep @ replicate k sep"
    using rstrip_decompose by blast
  then have "path_segments h = path_segments (rstrip h sep @ replicate k sep)"
    by simp
  then show ?thesis
    by (simp only: path_segments_append_seps)
qed

lemma rstrip_keeps_name:
  assumes "\<not> set h \<subseteq> {c}"
  shows "rstrip h c \<noteq> [] \<and> last (rstrip h c) \<noteq> c"
proof -
  let ?d = "dropWhile (\<lambda>x. x = c) (rev h)"
  from assms obtain x where "x \<in> set (rev h)" "x \<noteq> c"
    by auto
  then have ne: "?d \<noteq> []"
    by (auto simp: dropWhile_eq_Nil_conv)
  then have "hd ?d \<noteq> c"
    using hd_dropWhile [of "\<lambda>x. x = c" "rev h"] by simp
  with ne show ?thesis
    by (simp add: rstrip_def last_rev)
qed

lemma dirname_seps: "dirname (replicate n sep) = replicate n sep"
proof (cases n)
  case 0
  show ?thesis
    unfolding 0 by (simp add: dirname_def rfind_def Let_def)
next
  case (Suc m)
  have "replicate (Suc m) sep = replicate m sep @ sep # []"
    by (simp add: replicate_append_same)
  moreover have "dirname (replicate m sep @ sep # []) = replicate m sep @ [sep]"
    by (subst dirname_child) (simp_all add: replicate_append_same)
  ultimately show ?thesis
    unfolding Suc by simp
qed

lemma all_seps_replicate: "set p \<subseteq> {c} \<Longrightarrow> p = replicate (length p) c"
  by (metis replicate_length_same subset_singletonD empty_iff insertCI singletonD subsetD)

lemma get_folder_depth_exact:
  "get_folder_depth p
     = int (length (path_segments p)) + (if trailing_separator p then 1 else 0)"
proof (induction "length p" arbitrary: p rule: less_induct)
  case less
  show ?case
  proof (cases "sep \<in> set p")
    case False
    show ?thesis
    proof (cases "p = []")
      case True
      have "dirname [] = []"
        by (simp add: dirname_def rfind_def Let_def)
      then have "get_folder_depth [] = 0"
        by (simp add: get_folder_depth_fixed)
      with True show ?thesis
        by (simp add: path_segments_def trailing_separator_def)
    next
      case ne: False
      have d: "dirname p = []"
        using False by (simp add: dirname_def rfind_def Let_def)
      have "dirname [] = []"
        by (simp add: dirname_def rfind_def Let_def)
      then have "get_folder_depth [] = 0"
        by (simp add: get_folder_depth_fixed)
      with d ne have "get_folder_depth p = 1"
        using get_folder_depth_step [of p] by simp
      moreover have "last p \<noteq> sep"
        using False ne last_in_set by metis
      ultimately show ?thesis
        using False ne by (simp add: path_segments_name trailing_separator_def)
    qed
  next
    case True
    then obtain h s where p: "p = h @ sep # s" and s: "sep \<notin> set s"
      using split_list_last [of sep p] by blast
    show ?thesis
    proof (cases "set h \<subseteq> {sep}")
      case seps: True
      then have h: "h = replicate (length h) sep"
        by (rule all_seps_replicate)
      have hs: "h @ [sep] = replicate (Suc (length h)) sep"
        using h by (metis replicate_append_same replicate_Suc)
      have dp: "dirname p = replicate (Suc (length h)) sep"
        using s hs unfolding p by (simp add: dirname_child)
      have fixd: "get_folder_depth (replicate (Suc (length h)) sep) = 0"
        using dirname_seps [of "Suc (length h)"] get_folder_depth_fixed by metis
      have segh: "path_segments h = []"
        using h path_segments_seps [of "length h"] by simp
      show ?thesis
      proof (cases "s = []")
        case True
        then have "p = replicate (Suc (length h)) sep"
          using p hs by simp
        then show ?thesis
          using fixd path_segments_seps [of "Suc (length h)"]
          by (simp add: trailing_separator_def)
      next
        case False
        have "length (dirname p) = Suc (length h)"
          using dp by simp
        moreover have "length p = Suc (length h) + length s"
          using p by simp
        ultimately have "p \<noteq> dirname p"
          using False by auto
        then have "get_folder_depth p = 1"
          using get_folder_depth_step [of p] dp fixd by simp
        moreover have "path_segments p = [s]"
          unfolding p using segh s False
          by (simp add: path_segments_append path_segments_name)
        moreover have "last p \<noteq> sep"
          using False s unfolding p by (metis last_appendR last_ConsR last_in_set list.distinct(1))
        ultimately show ?thesis
          by (simp add: trailing_separator_def)
      qed
    next
      case name: False
      then have "h @ [sep] \<noteq> replicate (Suc (length h)) sep"
        by (metis in_set_replicate set_append UnI1 subsetI singletonI insertE empty_iff
            singleton_iff)
      then have dp: "dirname p = rstrip h sep"
        using s unfolding p by (simp add: dirname_child)
      obtain t where t: "h = rstrip h sep @ t"
        using rstrip_is_prefix by blast
      have lt: "length (rstrip h sep) < length p"
      proof -
        have "length (rstrip h sep) \<le> length h"
          using t by (metis length_append le_add1)
        then show ?thesis
          unfolding p by simp
      qed
      have keep: "rstrip h sep \<noteq> []" "last (rstrip h sep) \<noteq> sep"
        using rstrip_keeps_name [OF name] by simp_all
      have "\<not> trailing_separator (rstrip h sep)"
        using keep by (simp add: trailing_separator_def)
      then have ih: "get_folder_depth (rstrip h sep) = int (length (path_segments h))"
        using less [OF lt] by (simp add: path_segments_rstrip)
      have "p \<noteq> dirname p"
        using lt dp by auto
      then have depth: "get_folder_depth p = 1 + int (length (path_segments h))"
        using get_folder_depth_step [of p] dp ih by simp
      have np: "\<not> set p \<subseteq> {sep}"
        using name unfolding p by auto
      show ?thesis
      proof (cases "s = []")
        case True
        then have "path_segments p = path_segments h"
          unfolding p using path_segments_snoc_sep [of h] by simp
        moreover have "trailing_separator p"
          using True np unfolding p by (simp add: trailing_separator_def)
        ultimately show ?thesis
          using depth by simp
      next
        case False
        then have "path_segments p = path_segments h @ [s]"
          unfolding p using s by (simp add: path_segments_append path_segments_name)
        moreover have "last p \<noteq> sep"
          using False s unfolding p by (metis last_appendR last_ConsR last_in_set list.distinct(1))
        ultimately show ?thesis
          using depth by (simp add: trailing_separator_def)
      qed
    qed
  qed
qed

text \<open>
  C8, as the code has it. \<open>get_folder_depth\<close> is a total function of the path string:
  its recursion is accepted with the length of the path as measure, because \<open>dirname\<close>
  returns a proper prefix of a path it changes (\<open>dirname_shorter\<close>). The loop has no
  bound of its own: the value returned is the number of times the parent had to be taken
  until the parent of a path was that path itself, and no earlier step had reached such
  a path. That number is the number of path segments, and one more when the string ends
  with a separator after a name. So it is the number of segments on every string
  without such a trailing separator, and on every absolute path in normal form:
  \<open>n\<close> on the path made of \<open>n\<close> segments, 0 on the root, 1 on \<open>/a\<close>, 2 on \<open>/a/b\<close>.
\<close>

theorem get_folder_depth_segments:
  "0 \<le> get_folder_depth p
   \<and> dirname ((dirname ^^ nat (get_folder_depth p)) p) = (dirname ^^ nat (get_folder_depth p)) p
   \<and> (\<forall>k < nat (get_folder_depth p). dirname ((dirname ^^ k) p) \<noteq> (dirname ^^ k) p)
   \<and> get_folder_depth p
       = int (length (path_segments p)) + (if trailing_separator p then 1 else 0)
   \<and> (posix_path (path_segments p) = p \<longrightarrow>
        get_folder_depth p = int (length (path_segments p)))
   \<and> ((\<forall>s \<in> set segs. s \<noteq> [] \<and> sep \<notin> set s) \<longrightarrow>
        get_folder_depth (posix_path segs) = int (length segs))"
proof -
  have "get_folder_depth p = int (length (path_segments p))"
    if "posix_path (path_segments p) = p"
    using get_folder_depth_posix_path [OF path_segments_are_segments, of p] that by simp
  then show ?thesis
    using get_folder_depth_nonneg [of p] folder_depth_counts_steps [of p]
      get_folder_depth_exact [of p] get_folder_depth_posix_path [of segs]
    by blast
qed

theorem get_folder_depth_segments_witness:
  "posix_path (path_segments ''/a/b'') = ''/a/b''
   \<and> get_folder_depth ''/'' = 0 \<and> get_folder_depth ''/a'' = 1 \<and> get_folder_depth ''/a/b'' = 2
   \<and> get_folder_depth ''a/b'' = 2"
proof -
  have normal: "posix_path (path_segments ''/a/b'') = ''/a/b''"
               "path_segments ''/a/b'' = [''a'', ''b'']"
               "path_segments ''a/b'' = [''a'', ''b'']"
               "\<not> trailing_separator ''a/b''"
    by code_simp+
  show ?thesis
    using get_folder_depth_segments [of "''/a/b''" "[]"]
      get_folder_depth_segments [of "''/a/b''" "[''a'']"]
      get_folder_depth_segments [of "''a/b''" "[]"] normal
    by (simp add: posix_path_def sep_def)
qed

text \<open>
  C8 as stated fails on a string that is not in normal form: \<open>/a/b/\<close> has the two
  segments \<open>a\<close> and \<open>b\<close>, and its parents are \<open>/a/b\<close>, \<open>/a\<close> and \<open>/\<close>, three
  steps.
\<close>

theorem get_folder_depth_trailing_separator:
  "path_segments ''/a/b/'' = [''a'', ''b''] \<and> get_folder_depth ''/a/b/'' = 3"
  by code_simp

section \<open>Properties of the boundary policy\<close>

lemma startswith_prefix: "startswith s pre \<longleftrightarrow> prefix pre s"
proof
  assume "startswith s pre"
  then have "s = pre @ drop (length pre) s"
    by (metis append_take_drop_id startswith_def)
  then show "prefix pre s"
    by (metis prefixI)
next
  assume "prefix pre s"
  then obtain zs where "s = pre @ zs"
    by (auto simp: prefix_def)
  then show "startswith s pre"
    by (simp add: startswith_def)
qed

lemma startswith_any_iff: "startswith_any start_dir fss \<longleftrightarrow> (\<exists>fs \<in> set fss. prefix fs start_dir)"
  by (induction fss) (auto simp: startswith_prefix)

text \<open>
  C7. On Windows \<open>is_path_in_filesystems\<close> returns true whatever the arguments.
  Elsewhere, given an allow-list, it returns true exactly when the resolved path has one
  of the allowed roots as a prefix, and when resolving the path raises it prints the
  exception and returns false.
\<close>

theorem is_path_in_filesystems_spec:
  "(platform_system e = ''Windows'' \<longrightarrow> is_path_in_filesystems e path filesystems = (True, []))
   \<and> (platform_system e \<noteq> ''Windows'' \<longrightarrow>
        (\<forall>start_dir fss. resolve e path = Inr start_dir \<and> filesystems = Some fss \<longrightarrow>
           (fst (is_path_in_filesystems e path filesystems) \<longleftrightarrow> (\<exists>fs \<in> set fss. prefix fs start_dir)))
        \<and> (\<forall>exc. resolve e path = Inl exc \<longrightarrow>
             is_path_in_filesystems e path filesystems = (False, [PrintExc exc])))"
  by (auto simp: is_path_in_filesystems_def startswith_any_iff)

theorem is_path_in_filesystems_spec_witness:
  "is_path_in_filesystems windows_env ''/x'' None = (True, [])
   \<and> fst (is_path_in_filesystems posix_env ''/mnt/c/x'' (Some [''/mnt/e'', ''/mnt/c'']))
   \<and> \<not> fst (is_path_in_filesystems posix_env ''/home'' (Some [''/mnt/c'']))
   \<and> is_path_in_filesystems (posix_env\<lparr>resolve := \<lambda>p. Inl RuntimeError\<rparr>) ''/loop''
         (Some [''/'']) = (False, [PrintExc RuntimeError])"
  using is_path_in_filesystems_spec [of windows_env "''/x''" None]
    is_path_in_filesystems_spec [of posix_env "''/mnt/c/x''" "Some [''/mnt/e'', ''/mnt/c'']"]
    is_path_in_filesystems_spec [of posix_env "''/home''" "Some [''/mnt/c'']"]
    is_path_in_filesystems_spec [of "posix_env\<lparr>resolve := \<lambda>p. Inl RuntimeError\<rparr>" "''/loop''"
      "Some [''/'']"]
  by (simp add: posix_env_def windows_env_def)

section \<open>Properties of the tree walker\<close>

subsection \<open>The equations of the walker, case by case\<close>

declare get_directory_structure.simps [simp del]

declare directory_loop.simps(3) [simp del]

lemma insert_directory_parent:
  "(case parent_id of
      None \<Rightarrow> insert_directory c None name path mode
    | Some p \<Rightarrow> insert_directory c (Some p) name path mode)
   = insert_directory c parent_id name path mode"
  by (cases parent_id) simp_all

lemma gds_stat_raises:
  assumes "dir_stat attrs = Inl n"
  shows "get_directory_structure e w rootdir attrs entries filesystems parent_id =
           (if isinstance_PermissionError (OSError n)
            then (print w [PrintExc (OSError n)], Inr parent_id)
            else (w, Inl (OSError n)))"
  using assms by (simp add: get_directory_structure.simps)

lemma gds_listdir_raises:
  assumes "dir_stat attrs = Inr dstat" and "dir_listdir_error attrs = Some n"
    and "insert_directory (conn w) parent_id (path_name rootdir) rootdir (st_mode dstat)
           = (c1, new_id)"
  shows "get_directory_structure e w rootdir attrs entries filesystems parent_id =
           (if isinstance_PermissionError (OSError n)
            then (print (w\<lparr>conn := c1\<rparr>) [PrintExc (OSError n)], Inr (Some new_id))
            else (w\<lparr>conn := c1\<rparr>, Inl (OSError n)))"
  using assms by (simp add: get_directory_structure.simps insert_directory_parent)

lemma gds_lists:
  assumes "dir_stat attrs = Inr dstat" and "dir_listdir_error attrs = None"
    and "insert_directory (conn w) parent_id (path_name rootdir) rootdir (st_mode dstat)
           = (c1, new_id)"
  shows "get_directory_structure e w rootdir attrs entries filesystems parent_id =
           (case directory_loop e (w\<lparr>conn := c1\<rparr>) rootdir entries filesystems (Some new_id) of
              (w', parent_id', None) \<Rightarrow> (w', Inr parent_id')
            | (w', parent_id', Some exc) \<Rightarrow>
                if isinstance_PermissionError exc then (print w' [PrintExc exc], Inr parent_id')
                else (w', Inl exc))"
  using assms by (simp add: get_directory_structure.simps insert_directory_parent)

lemma loop_directory_unreadable:
  assumes "dir_stat attrs = Inl n"
  shows "directory_loop e w rootdir ((item, Directory attrs entries) # rest) filesystems parent_id
           = (w, parent_id, Some (OSError n))"
  using assms by (simp add: index_file_def directory_loop.simps(3))

lemma loop_directory_skipped:
  assumes "dir_stat attrs = Inr dstat"
    and "skip_mount e w (joinpath rootdir item) attrs filesystems = (True, w1)"
  shows "directory_loop e w rootdir ((item, Directory attrs entries) # rest) filesystems parent_id
           = directory_loop e (print w1 [PrintSkipping (joinpath rootdir item)]) rootdir rest
               filesystems parent_id"
  using assms by (simp add: directory_loop.simps(3))

lemma loop_directory_entered:
  assumes "dir_stat attrs = Inr dstat"
    and "skip_mount e w (joinpath rootdir item) attrs filesystems = (False, w1)"
  shows "directory_loop e w rootdir ((item, Directory attrs entries) # rest) filesystems parent_id
           = (case get_directory_structure e w1 (joinpath rootdir item) attrs entries filesystems
                     parent_id of
                (w2, Inr parent_id') \<Rightarrow> directory_loop e w2 rootdir rest filesystems parent_id'
              | (w2, Inl exc) \<Rightarrow>
                  if isinstance_OSError exc
                  then directory_loop e (print w2 [PrintFailed (joinpath rootdir item) exc]) rootdir
                         rest filesystems parent_id
                  else (w2, parent_id, Some exc))"
  using assms by (simp add: directory_loop.simps(3) Let_def)

lemma strip_links_walk:
  "get_directory_structure e w rootdir attrs (strip_links entries) filesystems parent_id
     = get_directory_structure e w rootdir attrs entries filesystems parent_id"
  "directory_loop e w rootdir (strip_links entries') filesystems parent_id
     = directory_loop e w rootdir entries' filesystems parent_id"
proof (induction e w rootdir attrs entries filesystems parent_id
         and e w rootdir entries' filesystems parent_id
       rule: get_directory_structure_directory_loop.induct)
  case (1 e w rootdir attrs entries filesystems parent_id)
  show ?case
  proof (cases "dir_stat attrs")
    case (Inl n)
    then show ?thesis by (simp add: gds_stat_raises)
  next
    case (Inr dstat)
    obtain c1 new_id where ins:
      "insert_directory (conn w) parent_id (path_name rootdir) rootdir (st_mode dstat) = (c1, new_id)"
      by (cases "insert_directory (conn w) parent_id (path_name rootdir) rootdir (st_mode dstat)")
    show ?thesis
    proof (cases "dir_listdir_error attrs")
      case (Some n)
      with Inr ins show ?thesis by (simp add: gds_listdir_raises)
    next
      case None
      have "directory_loop e (w\<lparr>conn := c1\<rparr>) rootdir (strip_links entries) filesystems (Some new_id)
              = directory_loop e (w\<lparr>conn := c1\<rparr>) rootdir entries filesystems (Some new_id)"
        using "1.IH" [OF Inr refl _ refl None, of c1 new_id] ins
        by (simp add: insert_directory_parent)
      with Inr None ins show ?thesis by (simp add: gds_lists)
    qed
  qed
next
  case (2 e w rootdir filesystems parent_id)
  show ?case by simp
next
  case (3 e w rootdir item target rest filesystems parent_id)
  then show ?case by simp
next
  case (4 e w rootdir item attrs entries rest filesystems parent_id)
  show ?case
  proof (cases "dir_stat attrs")
    case (Inl n)
    then show ?thesis by (simp add: loop_directory_unreadable)
  next
    case (Inr dstat)
    obtain skip w1 where sk: "skip_mount e w (joinpath rootdir item) attrs filesystems = (skip, w1)"
      by (cases "skip_mount e w (joinpath rootdir item) attrs filesystems")
    show ?thesis
    proof (cases skip)
      case True
      have "directory_loop e (print w1 [PrintSkipping (joinpath rootdir item)]) rootdir
              (strip_links rest) filesystems parent_id
            = directory_loop e (print w1 [PrintSkipping (joinpath rootdir item)]) rootdir rest
              filesystems parent_id"
        using "4.IH"(2) [OF refl Inr _ refl, of w1] sk True by simp
      with Inr sk True show ?thesis by (simp add: loop_directory_skipped)
    next
      case False
      have sub: "get_directory_structure e w1 (joinpath rootdir item) attrs (strip_links entries)
                   filesystems parent_id
                 = get_directory_structure e w1 (joinpath rootdir item) attrs entries
                   filesystems parent_id"
        using "4.IH"(3) [OF refl Inr _ refl, of w1] sk False by simp
      obtain w2 res where r: "get_directory_structure e w1 (joinpath rootdir item) attrs entries
                   filesystems parent_id = (w2, res)"
        by (cases "get_directory_structure e w1 (joinpath rootdir item) attrs entries
                   filesystems parent_id")
      show ?thesis
      proof (cases res)
        case (Inl exc)
        have "isinstance_OSError exc \<Longrightarrow>
              directory_loop e (print w2 [PrintFailed (joinpath rootdir item) exc]) rootdir
                (strip_links rest) filesystems parent_id
              = directory_loop e (print w2 [PrintFailed (joinpath rootdir item) exc]) rootdir rest
                filesystems parent_id"
          using "4.IH"(4) [OF refl Inr _ refl _ Inl, of w1 w2] sk False r Inl by simp
        with Inr sk False sub r Inl show ?thesis
          by (simp add: loop_directory_entered [where dstat = dstat and ?w1.0 = w1])
      next
        case (Inr pid')
        have "directory_loop e w2 rootdir (strip_links rest) filesystems pid'
              = directory_loop e w2 rootdir rest filesystems pid'"
          using "4.IH"(5) [OF refl \<open>dir_stat attrs = Inr dstat\<close> _ refl _ Inr, of w1 w2]
            sk False r Inr by simp
        with \<open>dir_stat attrs = Inr dstat\<close> sk False sub r Inr show ?thesis
          by (simp add: loop_directory_entered [where dstat = dstat and ?w1.0 = w1])
      qed
    qed
  qed
next
  case (5 e w rootdir item stat rest filesystems parent_id)
  obtain w' res where r: "index_file e w item (joinpath rootdir item) stat parent_id = (w', res)"
    by (cases "index_file e w item (joinpath rootdir item) stat parent_id")
  show ?case
  proof (cases res)
    case None
    with r "5.IH" [OF refl _ None, of w'] show ?thesis by simp
  next
    case (Some exc)
    with r show ?thesis by simp
  qed
qed

lemma loop_regular:
  "directory_loop e w rootdir ((item, Regular stat) # rest) filesystems parent_id =
     (case index_file e w item (joinpath rootdir item) stat parent_id of
        (w', None) \<Rightarrow> directory_loop e w' rootdir rest filesystems parent_id
      | (w', Some exc) \<Rightarrow> (w', parent_id, Some exc))"
  by (simp add: Let_def)

lemma directory_loop_append:
  "directory_loop e w rootdir (pre @ post) filesystems parent_id =
     (case directory_loop e w rootdir pre filesystems parent_id of
        (w', parent_id', None) \<Rightarrow> directory_loop e w' rootdir post filesystems parent_id'
      | (w', parent_id', Some exc) \<Rightarrow> (w', parent_id', Some exc))"
proof (induction pre arbitrary: w parent_id)
  case Nil
  show ?case by simp
next
  case (Cons entry pre)
  obtain item n where entry: "entry = (item, n)"
    by (cases entry)
  show ?case
  proof (cases n)
    case (Symlink target)
    with entry Cons.IH show ?thesis by simp
  next
    case (Regular stat)
    obtain w' res where r: "index_file e w item (joinpath rootdir item) stat parent_id = (w', res)"
      by (cases "index_file e w item (joinpath rootdir item) stat parent_id")
    show ?thesis
    proof (cases res)
      case None
      with entry Regular r Cons.IH [of w' parent_id] show ?thesis
        by (simp add: Let_def)
    next
      case (Some exc)
      with entry Regular r show ?thesis
        by (simp add: Let_def)
    qed
  next
    case (Directory attrs entries)
    show ?thesis
    proof (cases "dir_stat attrs")
      case (Inl errno)
      with entry Directory show ?thesis
        by (simp add: loop_directory_unreadable)
    next
      case (Inr dstat)
      obtain skip w1 where sk:
        "skip_mount e w (joinpath rootdir item) attrs filesystems = (skip, w1)"
        by (cases "skip_mount e w (joinpath rootdir item) attrs filesystems")
      show ?thesis
      proof (cases skip)
        case True
        with entry Directory Inr sk Cons.IH show ?thesis
          by (simp add: loop_directory_skipped)
      next
        case False
        obtain w2 res where r:
          "get_directory_structure e w1 (joinpath rootdir item) attrs entries filesystems
             parent_id = (w2, res)"
          by (cases "get_directory_structure e w1 (joinpath rootdir item) attrs entries
                filesystems parent_id")
        from Inr sk False have unfold: "\<And>rest.
          directory_loop e w rootdir ((item, Directory attrs entries) # rest) filesystems parent_id
           = (case res of
                Inr parent_id' \<Rightarrow> directory_loop e w2 rootdir rest filesystems parent_id'
              | Inl exc \<Rightarrow>
                  if isinstance_OSError exc
                  then directory_loop e (print w2 [PrintFailed (joinpath rootdir item) exc]) rootdir
                         rest filesystems parent_id
                  else (w2, parent_id, Some exc))"
          by (simp add: loop_directory_entered [where dstat = dstat and ?w1.0 = w1] r)
        show ?thesis
          using entry Directory Cons.IH
          by (cases res) (simp_all add: unfold)
      qed
    qed
  qed
qed

lemma permission_error_is_oserror: "isinstance_PermissionError exc \<Longrightarrow> isinstance_OSError exc"
  by (cases exc) (simp_all add: isinstance_PermissionError_def isinstance_OSError_def)

lemma insert_directory_row:
  "insert_directory c parent_id name path mode = (c1, new_id) \<Longrightarrow>
     directories c1 = directories c @
       [\<lparr>directories_id = new_id, directories_parent_id = parent_id,
         directories_directory_name = name, directories_full_path = path,
         directories_permission = mode\<rparr>]
     \<and> files c1 = files c \<and> tags c1 = tags c"
  by (auto simp: insert_directory_def Let_def)

lemma insert_file_row:
  "insert_file c directory_id name path sz mode = (c1, file_id) \<Longrightarrow>
     files c1 = files c @
       [\<lparr>files_id = file_id, files_directory_id = directory_id, files_file_name = name,
         files_file_path = path, files_size = sz, files_permission = mode\<rparr>]
     \<and> directories c1 = directories c \<and> tags c1 = tags c"
  by (auto simp: insert_file_def Let_def)

subsection \<open>Evaluation on the concrete trees\<close>

lemmas walk_defs =
  main_def get_directory_structure.simps directory_loop.simps(3) Let_def
  Path_def sqlite3_connect_def create_database_def commit_def empty_database_def
  insert_directory_def insert_file_def insert_tag_def next_rowid_def
  index_file_def resolve_owner_def skip_mount_def print_def
  is_path_in_filesystems_def isinstance_PermissionError_def isinstance_OSError_def
  path_name_def joinpath_def sep_def get_file_size_category_def
  posix_env_def example_stat_def plain_dir_def locked_dir_def mount_dir_def
  root_row_def after_root_def

lemma depth_of_top_level_files:
  "get_folder_depth ''/a.txt'' = 1" "get_folder_depth ''/b.txt'' = 1"
  "get_folder_depth ''/f.txt'' = 1"
  by code_simp+

lemma ext_of_top_level_files:
  "splitext_ext ''/a.txt'' = ''.txt''" "splitext_ext ''/b.txt'' = ''.txt''"
  "splitext_ext ''/f.txt'' = ''.txt''"
  by code_simp+

lemma lower_txt: "str_lower ''txt'' = ''txt''"
  by code_simp

lemmas file_facts = depth_of_top_level_files ext_of_top_level_files lower_txt

subsection \<open>Symbolic links\<close>

text \<open>
  C6. A symbolic link among the entries is passed over: the loop continues with the
  remaining entries from the same state and the same parent id, whatever the link's
  target. Hence the walk of a tree equals the walk of the tree without its links, at
  every depth: the same rows, the same output, the same result. No row is inserted for
  a link, and no link is descended into. The walk is a total function of the tree (its
  recursion follows the directory entries and never a link's target), so a link that
  points back to an ancestor cannot make it run forever.
\<close>

theorem symlinks_never_indexed:
  "directory_loop e w rootdir ((item, Symlink target) # rest) filesystems parent_id
     = directory_loop e w rootdir rest filesystems parent_id
   \<and> get_directory_structure e w rootdir attrs (strip_links entries) filesystems parent_id
     = get_directory_structure e w rootdir attrs entries filesystems parent_id"
  by (simp add: strip_links_walk(1))

theorem symlinks_never_indexed_witness:
  "directory_loop posix_env after_root ''/''
       [(''back'', Symlink ''/''), (''a.txt'', Regular (Inr (example_stat 10 0)))] None (Some 1)
     = directory_loop posix_env after_root ''/''
         [(''a.txt'', Regular (Inr (example_stat 10 0)))] None (Some 1)
   \<and> get_directory_structure posix_env after_root ''/sub'' plain_dir
         [(''up'', Symlink ''/''), (''self'', Symlink ''/sub'')] None (Some 1)
     = (after_root\<lparr>conn := (conn after_root)
          \<lparr>directories := [root_row,
             \<lparr>directories_id = 2, directories_parent_id = Some 1,
              directories_directory_name = ''sub'', directories_full_path = ''/sub'',
              directories_permission = 16877\<rparr>],
           last_insert_rowid := 2\<rparr>\<rparr>, Inr (Some 2))"
proof -
  have "get_directory_structure posix_env after_root ''/sub'' plain_dir [] None (Some 1)
     = (after_root\<lparr>conn := (conn after_root)
          \<lparr>directories := [root_row,
             \<lparr>directories_id = 2, directories_parent_id = Some 1,
              directories_directory_name = ''sub'', directories_full_path = ''/sub'',
              directories_permission = 16877\<rparr>],
           last_insert_rowid := 2\<rparr>\<rparr>, Inr (Some 2))"
    by (simp add: walk_defs)
  then show ?thesis
    using symlinks_never_indexed [of posix_env after_root "''/''" "''back''" "''/''"
        "[(''a.txt'', Regular (Inr (example_stat 10 0)))]" None "Some 1"]
      symlinks_never_indexed [of posix_env after_root "''/sub''" "''x''" "''/''" "[]" None
        "Some 1" plain_dir "[(''up'', Symlink ''/''), (''self'', Symlink ''/sub'')]"]
    by simp
qed

subsection \<open>A directory that cannot be listed\<close>

text \<open>
  C4. When \<^verbatim>\<open>os.listdir\<close> raises a permission error on a directory that
  \<^verbatim>\<open>os.stat\<close> could read, the call on that directory has already inserted the
  directory's row; it prints the exception and returns normally, with the id of that row
  (the value \<^verbatim>\<open>parent_id\<close> held when the error occurred). In the caller's loop the
  entries after that directory are then processed, from the state the call left.
\<close>

theorem listing_permission_error:
  assumes "dir_stat attrs = Inr dstat"
    and "dir_listdir_error attrs = Some n"
    and "isinstance_PermissionError (OSError n)"
    and "insert_directory (conn w) parent_id (path_name rootdir) rootdir (st_mode dstat)
           = (c1, new_id)"
  shows
    "get_directory_structure e w rootdir attrs entries filesystems parent_id
       = (print (w\<lparr>conn := c1\<rparr>) [PrintExc (OSError n)], Inr (Some new_id))
     \<and> directories c1 = directories (conn w) @
          [\<lparr>directories_id = new_id, directories_parent_id = parent_id,
            directories_directory_name = path_name rootdir, directories_full_path = rootdir,
            directories_permission = st_mode dstat\<rparr>]
     \<and> (rootdir = joinpath updir item
          \<and> skip_mount e w0 (joinpath updir item) attrs filesystems = (False, w) \<longrightarrow>
        directory_loop e w0 updir ((item, Directory attrs entries) # rest) filesystems parent_id
          = directory_loop e (print (w\<lparr>conn := c1\<rparr>) [PrintExc (OSError n)]) updir rest
              filesystems (Some new_id))"
proof -
  have call: "get_directory_structure e w rootdir attrs entries filesystems parent_id
       = (print (w\<lparr>conn := c1\<rparr>) [PrintExc (OSError n)], Inr (Some new_id))"
    using assms by (simp add: gds_listdir_raises)
  have row: "directories c1 = directories (conn w) @
          [\<lparr>directories_id = new_id, directories_parent_id = parent_id,
            directories_directory_name = path_name rootdir, directories_full_path = rootdir,
            directories_permission = st_mode dstat\<rparr>]"
    using insert_directory_row [OF assms(4)] by simp
  have caller: "directory_loop e w0 updir ((item, Directory attrs entries) # rest) filesystems parent_id
          = directory_loop e (print (w\<lparr>conn := c1\<rparr>) [PrintExc (OSError n)]) updir rest
              filesystems (Some new_id)"
    if "rootdir = joinpath updir item"
      and "skip_mount e w0 (joinpath updir item) attrs filesystems = (False, w)"
    using that call assms(1) by (simp add: loop_directory_entered [where dstat = dstat and ?w1.0 = w])
  from call row caller show ?thesis by blast
qed

theorem listing_permission_error_witness:
  "get_directory_structure posix_env after_root ''/locked'' locked_dir
       [(''secret.txt'', Regular (Inr (example_stat 10 0)))] None (Some 1)
     = (\<lparr>conn = \<lparr>directories = [root_row,
             \<lparr>directories_id = 2, directories_parent_id = Some 1,
              directories_directory_name = ''locked'', directories_full_path = ''/locked'',
              directories_permission = 16877\<rparr>],
           files = [], tags = [], last_insert_rowid = 2\<rparr>,
         stdout = [PrintExc (OSError EACCES)]\<rparr>, Inr (Some 2))
   \<and> directory_loop posix_env after_root ''/''
         [(''locked'', Directory locked_dir [(''secret.txt'', Regular (Inr (example_stat 10 0)))]),
          (''next'', Symlink ''/locked'')] None (Some 1)
     = (\<lparr>conn = \<lparr>directories = [root_row,
             \<lparr>directories_id = 2, directories_parent_id = Some 1,
              directories_directory_name = ''locked'', directories_full_path = ''/locked'',
              directories_permission = 16877\<rparr>],
           files = [], tags = [], last_insert_rowid = 2\<rparr>,
         stdout = [PrintExc (OSError EACCES)]\<rparr>, Some 2, None)"
proof -
  let ?c1 = "\<lparr>directories = [root_row,
             \<lparr>directories_id = 2, directories_parent_id = Some 1,
              directories_directory_name = ''locked'', directories_full_path = ''/locked'',
              directories_permission = 16877\<rparr>],
           files = [], tags = [], last_insert_rowid = 2\<rparr>"
  have h1: "dir_stat locked_dir = Inr (example_stat 4096 0\<lparr>st_mode := 16877\<rparr>)"
    by (simp add: locked_dir_def plain_dir_def)
  have h2: "dir_listdir_error locked_dir = Some EACCES"
    by (simp add: locked_dir_def plain_dir_def)
  have h3: "isinstance_PermissionError (OSError EACCES)"
    by (simp add: isinstance_PermissionError_def)
  have h4: "insert_directory (conn after_root) (Some 1) (path_name ''/locked'') ''/locked''
              (st_mode (example_stat 4096 0\<lparr>st_mode := 16877\<rparr>)) = (?c1, 2)"
    by (simp add: insert_directory_def next_rowid_def after_root_def root_row_def path_name_def
        sep_def example_stat_def Let_def)
  have h5: "''/locked'' = joinpath ''/'' ''locked''
      \<and> skip_mount posix_env after_root (joinpath ''/'' ''locked'') locked_dir None
          = (False, after_root)"
    by (simp add: joinpath_def sep_def skip_mount_def locked_dir_def plain_dir_def)
  show ?thesis
    using listing_permission_error [OF h1 h2 h3 h4, where e = posix_env and filesystems = None
        and entries = "[(''secret.txt'', Regular (Inr (example_stat 10 0)))]"
        and updir = "''/''" and item = "''locked''" and ?w0.0 = after_root
        and rest = "[(''next'', Symlink ''/locked'')]"] h5
    by (simp add: print_def after_root_def)
qed

subsection \<open>Mount points in a run without an allow-list\<close>

lemma conn_print: "conn (print w entries) = conn w"
  by (simp add: print_def)

lemma index_file_same_store:
  "conn w = conn w' \<Longrightarrow>
     same_store (index_file e w item item_path stat parent_id)
       (index_file e w' item item_path stat parent_id)"
  by (auto simp: same_store_def index_file_def Let_def split: sum.splits prod.splits)

lemma skip_mount_no_allow_list:
  assumes "platform_system e \<noteq> ''Windows''"
  shows "skip_mount e w item_path attrs None
           = (dir_ismount attrs,
              if dir_ismount attrs
              then print w (snd (is_path_in_filesystems e item_path None)) else w)"
  using assms by (simp add: skip_mount_def is_path_in_filesystems_def split: sum.splits)

lemma leave_same_store:
  assumes "same_store l l'"
  shows "same_store
           (case l of
              (w1, parent_id1, None) \<Rightarrow> (w1, Inr parent_id1)
            | (w1, parent_id1, Some exc) \<Rightarrow>
                if isinstance_PermissionError exc then (print w1 [PrintExc exc], Inr parent_id1)
                else (w1, Inl exc))
           (case l' of
              (w1, parent_id1, None) \<Rightarrow> (w1, Inr parent_id1)
            | (w1, parent_id1, Some exc) \<Rightarrow>
                if isinstance_PermissionError exc then (print w1 [PrintExc exc], Inr parent_id1)
                else (w1, Inl exc))"
  using assms
  by (cases l; cases l') (auto simp: same_store_def conn_print split: option.splits)

lemma prune_mounts_walk:
  "filesystems = None \<Longrightarrow> platform_system e \<noteq> ''Windows'' \<Longrightarrow> conn w' = conn w \<Longrightarrow>
     same_store (get_directory_structure e w rootdir attrs entries filesystems parent_id)
       (get_directory_structure e w' rootdir attrs (prune_mounts entries) filesystems parent_id)"
  "filesystems = None \<Longrightarrow> platform_system e \<noteq> ''Windows'' \<Longrightarrow> conn w' = conn w \<Longrightarrow>
     same_store (directory_loop e w rootdir entries' filesystems parent_id)
       (directory_loop e w' rootdir (prune_mounts entries') filesystems parent_id)"
proof (induction e w rootdir attrs entries filesystems parent_id
         and e w rootdir entries' filesystems parent_id
       arbitrary: w' and w'
       rule: get_directory_structure_directory_loop.induct)
  case (1 e w rootdir attrs entries filesystems parent_id)
  show ?case
  proof (cases "dir_stat attrs")
    case (Inl n)
    then show ?thesis
      using "1.prems"(3) by (simp add: gds_stat_raises same_store_def conn_print)
  next
    case (Inr dstat)
    obtain c1 new_id where ins:
      "insert_directory (conn w) parent_id (path_name rootdir) rootdir (st_mode dstat) = (c1, new_id)"
      by (cases "insert_directory (conn w) parent_id (path_name rootdir) rootdir (st_mode dstat)")
    then have ins': "insert_directory (conn w') parent_id (path_name rootdir) rootdir (st_mode dstat)
        = (c1, new_id)"
      using "1.prems"(3) by simp
    show ?thesis
    proof (cases "dir_listdir_error attrs")
      case (Some n)
      show ?thesis
        using gds_listdir_raises [OF Inr Some ins] gds_listdir_raises [OF Inr Some ins']
        by (simp add: same_store_def conn_print)
    next
      case None
      have "same_store (directory_loop e (w\<lparr>conn := c1\<rparr>) rootdir entries filesystems (Some new_id))
              (directory_loop e (w'\<lparr>conn := c1\<rparr>) rootdir (prune_mounts entries) filesystems
                 (Some new_id))"
      proof (rule "1.IH" [OF Inr refl _ refl None "1.prems"(1,2)])
        show "(c1, new_id) = (case parent_id of
                 None \<Rightarrow> insert_directory (conn w) None (path_name rootdir) rootdir (st_mode dstat)
               | Some p \<Rightarrow> insert_directory (conn w) (Some p) (path_name rootdir) rootdir
                           (st_mode dstat))"
          using ins by (simp add: insert_directory_parent)
        show "conn (w'\<lparr>conn := c1\<rparr>) = conn (w\<lparr>conn := c1\<rparr>)"
          by simp
      qed
      then show ?thesis
        using gds_lists [OF Inr None ins] gds_lists [OF Inr None ins']
        by (simp add: leave_same_store)
    qed
  qed
next
  case (2 e w rootdir filesystems parent_id)
  then show ?case by (simp add: same_store_def)
next
  case (3 e w rootdir item target rest filesystems parent_id)
  then show ?case by simp
next
  case (4 e w rootdir item attrs entries rest filesystems parent_id)
  note fs = "4.prems"(1) and plat = "4.prems"(2) and cw = "4.prems"(3)
  show ?case
  proof (cases "dir_stat attrs")
    case (Inl n)
    then show ?thesis
      using cw by (simp add: loop_directory_unreadable same_store_def)
  next
    case (Inr dstat)
    have sk: "skip_mount e w (joinpath rootdir item) attrs filesystems
           = (dir_ismount attrs,
              if dir_ismount attrs
              then print w (snd (is_path_in_filesystems e (joinpath rootdir item) None)) else w)"
      unfolding fs using plat by (rule skip_mount_no_allow_list)
    have sk': "skip_mount e w' (joinpath rootdir item) attrs filesystems
           = (dir_ismount attrs,
              if dir_ismount attrs
              then print w' (snd (is_path_in_filesystems e (joinpath rootdir item) None)) else w')"
      unfolding fs using plat by (rule skip_mount_no_allow_list)
    show ?thesis
    proof (cases "dir_ismount attrs")
      case True
      let ?w1 = "print w (snd (is_path_in_filesystems e (joinpath rootdir item) None))"
      have "same_store
              (directory_loop e (print ?w1 [PrintSkipping (joinpath rootdir item)]) rootdir rest
                 filesystems parent_id)
              (directory_loop e w' rootdir (prune_mounts rest) filesystems parent_id)"
      proof (rule "4.IH"(2) [OF refl Inr _ refl fs plat])
        show "(True, ?w1) = skip_mount e w (joinpath rootdir item) attrs filesystems"
          using sk True by simp
        show "conn w' = conn (print ?w1 [PrintSkipping (joinpath rootdir item)])"
          using cw by (simp add: conn_print)
      qed
      then show ?thesis
        using Inr True sk by (simp add: loop_directory_skipped)
    next
      case False
      have sub: "same_store
          (get_directory_structure e w (joinpath rootdir item) attrs entries filesystems parent_id)
          (get_directory_structure e w' (joinpath rootdir item) attrs (prune_mounts entries)
             filesystems parent_id)"
      proof (rule "4.IH"(3) [OF refl Inr _ refl fs plat])
        show "(False, w) = skip_mount e w (joinpath rootdir item) attrs filesystems"
          using sk False by simp
        show "conn w' = conn w"
          by (rule cw)
      qed
      obtain w2 res where r:
        "get_directory_structure e w (joinpath rootdir item) attrs entries filesystems parent_id
           = (w2, res)"
        by (cases "get_directory_structure e w (joinpath rootdir item) attrs entries filesystems
              parent_id")
      obtain w2' res' where r':
        "get_directory_structure e w' (joinpath rootdir item) attrs (prune_mounts entries)
           filesystems parent_id = (w2', res')"
        by (cases "get_directory_structure e w' (joinpath rootdir item) attrs
              (prune_mounts entries) filesystems parent_id")
      from sub r r' have eq: "conn w2' = conn w2" "res' = res"
        by (simp_all add: same_store_def)
      have left: "directory_loop e w rootdir ((item, Directory attrs entries) # rest) filesystems
            parent_id
          = (case res of
               Inr parent_id' \<Rightarrow> directory_loop e w2 rootdir rest filesystems parent_id'
             | Inl exc \<Rightarrow>
                 if isinstance_OSError exc
                 then directory_loop e (print w2 [PrintFailed (joinpath rootdir item) exc]) rootdir
                        rest filesystems parent_id
                 else (w2, parent_id, Some exc))"
        using Inr sk False r
        by (simp add: loop_directory_entered [where dstat = dstat and ?w1.0 = w])
      have right: "directory_loop e w' rootdir
            (prune_mounts ((item, Directory attrs entries) # rest)) filesystems parent_id
          = (case res of
               Inr parent_id' \<Rightarrow>
                 directory_loop e w2' rootdir (prune_mounts rest) filesystems parent_id'
             | Inl exc \<Rightarrow>
                 if isinstance_OSError exc
                 then directory_loop e (print w2' [PrintFailed (joinpath rootdir item) exc]) rootdir
                        (prune_mounts rest) filesystems parent_id
                 else (w2', parent_id, Some exc))"
        using Inr sk' False r' eq(2)
        by (simp add: loop_directory_entered [where dstat = dstat and ?w1.0 = w'])
      show ?thesis
      proof (cases res)
        case (Inl exc)
        show ?thesis
        proof (cases "isinstance_OSError exc")
          case True
          have "same_store
              (directory_loop e (print w2 [PrintFailed (joinpath rootdir item) exc]) rootdir rest
                 filesystems parent_id)
              (directory_loop e (print w2' [PrintFailed (joinpath rootdir item) exc]) rootdir
                 (prune_mounts rest) filesystems parent_id)"
          proof (rule "4.IH"(4) [OF refl Inr _ refl _ Inl True fs plat])
            show "(False, w) = skip_mount e w (joinpath rootdir item) attrs filesystems"
              using sk \<open>\<not> dir_ismount attrs\<close> by simp
            show "(w2, res) = get_directory_structure e w (joinpath rootdir item) attrs entries
                    filesystems parent_id"
              using r by simp
            show "conn (print w2' [PrintFailed (joinpath rootdir item) exc])
                    = conn (print w2 [PrintFailed (joinpath rootdir item) exc])"
              using eq(1) by (simp add: conn_print)
          qed
          then show ?thesis
            unfolding left right using Inl True by simp
        next
          case False
          then show ?thesis
            unfolding left right using Inl eq(1) by (simp add: same_store_def)
        qed
      next
        case (Inr pid')
        have "same_store (directory_loop e w2 rootdir rest filesystems pid')
                (directory_loop e w2' rootdir (prune_mounts rest) filesystems pid')"
        proof (rule "4.IH"(5) [OF refl \<open>dir_stat attrs = Inr dstat\<close> _ refl _ Inr fs plat])
          show "(False, w) = skip_mount e w (joinpath rootdir item) attrs filesystems"
            using sk False by simp
          show "(w2, res) = get_directory_structure e w (joinpath rootdir item) attrs entries
                  filesystems parent_id"
            using r by simp
          show "conn w2' = conn w2"
            by (rule eq(1))
        qed
        then show ?thesis
          unfolding left right using Inr by simp
      qed
    qed
  qed
next
  case (5 e w rootdir item stat rest filesystems parent_id)
  obtain w1 res where r: "index_file e w item (joinpath rootdir item) stat parent_id = (w1, res)"
    by (cases "index_file e w item (joinpath rootdir item) stat parent_id")
  obtain w1' res' where r': "index_file e w' item (joinpath rootdir item) stat parent_id = (w1', res')"
    by (cases "index_file e w' item (joinpath rootdir item) stat parent_id")
  have eq: "conn w1' = conn w1" "res' = res"
    using index_file_same_store [OF "5.prems"(3) [symmetric], of e item "joinpath rootdir item"
        stat parent_id] r r'
    by (simp_all add: same_store_def)
  show ?case
  proof (cases res)
    case None
    show ?thesis
    proof -
      have "same_store (directory_loop e w1 rootdir rest filesystems parent_id)
              (directory_loop e w1' rootdir (prune_mounts rest) filesystems parent_id)"
      proof (rule "5.IH" [OF refl _ None "5.prems"(1,2)])
        show "(w1, res) = index_file e w item (joinpath rootdir item) stat parent_id"
          using r by simp
        show "conn w1' = conn w1"
          by (rule eq(1))
      qed
      then show ?thesis
        using r r' eq(2) None by (simp add: Let_def)
    qed
  next
    case (Some exc)
    then show ?thesis
      using r r' eq by (simp add: Let_def same_store_def)
  qed
qed


lemma prune_tree_roots:
  "platform_system e \<noteq> ''Windows'' \<Longrightarrow> conn w' = conn w \<Longrightarrow>
     same_store (walk_roots e tree w roots None) (walk_roots e (prune_tree tree) w' roots None)"
proof (induction roots arbitrary: w w')
  case Nil
  then show ?case by (simp add: same_store_def)
next
  case (Cons root_directory roots)
  have sub: "same_store
      (get_directory_structure e w root_directory (fst (tree root_directory))
         (snd (tree root_directory)) None None)
      (get_directory_structure e w' root_directory (fst (tree root_directory))
         (prune_mounts (snd (tree root_directory))) None None)"
    using Cons.prems by (intro prune_mounts_walk(1)) simp_all
  obtain w1 res where r:
    "get_directory_structure e w root_directory (fst (tree root_directory))
       (snd (tree root_directory)) None None = (w1, res)"
    by (cases "get_directory_structure e w root_directory (fst (tree root_directory))
          (snd (tree root_directory)) None None")
  obtain w1' res' where r':
    "get_directory_structure e w' root_directory (fst (tree root_directory))
       (prune_mounts (snd (tree root_directory))) None None = (w1', res')"
    by (cases "get_directory_structure e w' root_directory (fst (tree root_directory))
          (prune_mounts (snd (tree root_directory))) None None")
  from sub r r' have eq: "conn w1' = conn w1" "res' = res"
    by (simp_all add: same_store_def)
  show ?case
  proof (cases res)
    case (Inl exc)
    then show ?thesis
      using r r' eq by (simp add: prune_tree_def same_store_def)
  next
    case (Inr returned)
    then show ?thesis
      using r r' eq Cons.IH [OF Cons.prems(1) eq(1)] by (simp add: prune_tree_def)
  qed
qed

lemma prune_tree_main:
  assumes "platform_system e \<noteq> ''Windows''"
  shows "map_sum id fst (main e tree db None) = map_sum id fst (main e (prune_tree tree) db None)"
proof -
  let ?start = "\<lparr>conn = sqlite3_connect (create_database db), stdout = []\<rparr>"
  have same: "same_store (walk_roots e tree ?start [Path ''/''] None)
                (walk_roots e (prune_tree tree) ?start [Path ''/''] None)"
    using assms by (intro prune_tree_roots) simp_all
  obtain w1 res where r: "walk_roots e tree ?start [Path ''/''] None = (w1, res)"
    by (cases "walk_roots e tree ?start [Path ''/''] None")
  obtain w1' res' where r': "walk_roots e (prune_tree tree) ?start [Path ''/''] None = (w1', res')"
    by (cases "walk_roots e (prune_tree tree) ?start [Path ''/''] None")
  from same r r' have eq: "conn w1' = conn w1" "res' = res"
    by (simp_all add: same_store_def)
  have "main e tree db None
          = (case res of Some exc \<Rightarrow> Inl exc
             | None \<Rightarrow> Inr (commit (conn w1), stdout w1 @ [PrintUpdated]))"
    using assms r by (simp add: main_def Let_def split: option.splits)
  moreover have "main e (prune_tree tree) db None
          = (case res of Some exc \<Rightarrow> Inl exc
             | None \<Rightarrow> Inr (commit (conn w1'), stdout w1' @ [PrintUpdated]))"
    using assms r' eq(2) by (simp add: main_def Let_def split: option.splits)
  ultimately show ?thesis
    using eq(1) by (cases res) simp_all
qed

text \<open>
  C10. Away from Windows and with no allow-list (\<^verbatim>\<open>filesystems\<close> is \<^verbatim>\<open>None\<close>, which
  \<^verbatim>\<open>main\<close> hands on unchanged), \<open>is_path_in_filesystems\<close> returns false for every
  path: it prints the exception of \<^verbatim>\<open>path.resolve()\<close>, or else the \<^verbatim>\<open>TypeError\<close> of
  iterating \<^verbatim>\<open>None\<close>, and raises nothing. So a subdirectory that is a mount point is
  passed over by the loop: nothing is inserted for it, the skip is printed, and the loop
  goes on with the next entry and the same parent id. This holds of the whole walk and
  of the whole run: the call on a directory leaves the same store and returns or raises
  the same as the call on that directory with every mount point below it removed, at
  every depth, and \<^verbatim>\<open>main\<close> commits the same store, or ends with the same exception, as
  on the tree without its mount points.
\<close>

theorem default_run_skips_mount_points:
  assumes "platform_system e \<noteq> ''Windows''"
  shows
    "is_path_in_filesystems e path None
       = (False, [PrintExc (case resolve e path of Inl exc \<Rightarrow> exc | Inr start_dir \<Rightarrow> TypeError)])
     \<and> (dir_stat attrs = Inr dstat \<and> dir_ismount attrs \<longrightarrow>
          directory_loop e w rootdir ((item, Directory attrs entries) # rest) None parent_id
            = directory_loop e
                (print (print w (snd (is_path_in_filesystems e (joinpath rootdir item) None)))
                   [PrintSkipping (joinpath rootdir item)])
                rootdir rest None parent_id)
     \<and> main e tree db None
         = (case walk_roots e tree \<lparr>conn = sqlite3_connect db, stdout = []\<rparr> [''/''] None of
              (w', Some exc) \<Rightarrow> Inl exc
            | (w', None) \<Rightarrow> Inr (commit (conn w'), stdout w' @ [PrintUpdated]))
     \<and> conn (fst (get_directory_structure e w rootdir attrs entries None parent_id))
         = conn (fst (get_directory_structure e w rootdir attrs (prune_mounts entries) None
                        parent_id))
     \<and> snd (get_directory_structure e w rootdir attrs entries None parent_id)
         = snd (get_directory_structure e w rootdir attrs (prune_mounts entries) None parent_id)
     \<and> map_sum id fst (main e tree db None)
         = map_sum id fst (main e (prune_tree tree) db None)"
proof -
  have policy: "is_path_in_filesystems e p None
       = (False, [PrintExc (case resolve e p of Inl exc \<Rightarrow> exc | Inr start_dir \<Rightarrow> TypeError)])"
    for p
    using assms by (simp add: is_path_in_filesystems_def split: sum.splits)
  have skip: "directory_loop e w rootdir ((item, Directory attrs entries) # rest) None parent_id
            = directory_loop e
                (print (print w (snd (is_path_in_filesystems e (joinpath rootdir item) None)))
                   [PrintSkipping (joinpath rootdir item)])
                rootdir rest None parent_id"
    if "dir_stat attrs = Inr dstat" and "dir_ismount attrs"
  proof -
    have "skip_mount e w (joinpath rootdir item) attrs None
            = (True, print w (snd (is_path_in_filesystems e (joinpath rootdir item) None)))"
      using that(2) by (simp add: skip_mount_def policy)
    with that(1) show ?thesis
      by (simp add: loop_directory_skipped)
  qed
  have run: "main e tree db None
         = (case walk_roots e tree \<lparr>conn = sqlite3_connect db, stdout = []\<rparr> [''/''] None of
              (w', Some exc) \<Rightarrow> Inl exc
            | (w', None) \<Rightarrow> Inr (commit (conn w'), stdout w' @ [PrintUpdated]))"
    using assms by (simp add: main_def Path_def create_database_def Let_def)
  have "same_store (get_directory_structure e w rootdir attrs entries None parent_id)
          (get_directory_structure e w rootdir attrs (prune_mounts entries) None parent_id)"
    using assms by (intro prune_mounts_walk(1)) simp_all
  then have walk:
    "conn (fst (get_directory_structure e w rootdir attrs entries None parent_id))
       = conn (fst (get_directory_structure e w rootdir attrs (prune_mounts entries) None
                      parent_id))"
    "snd (get_directory_structure e w rootdir attrs entries None parent_id)
       = snd (get_directory_structure e w rootdir attrs (prune_mounts entries) None parent_id)"
    by (simp_all add: same_store_def)
  have whole: "map_sum id fst (main e tree db None)
         = map_sum id fst (main e (prune_tree tree) db None)"
    using assms by (rule prune_tree_main)
  from policy skip run walk whole show ?thesis by blast
qed

theorem default_run_skips_mount_points_witness:
  "is_path_in_filesystems posix_env ''/proc'' None = (False, [PrintExc TypeError])
   \<and> directory_loop posix_env after_root ''/''
         [(''proc'', Directory mount_dir [(''cpuinfo'', Regular (Inr (example_stat 0 0)))])]
         None (Some 1)
     = (after_root\<lparr>stdout := [PrintExc TypeError, PrintSkipping ''/proc'']\<rparr>, Some 1, None)
   \<and> map_sum id fst (main posix_env mount_tree empty_database None)
     = Inr \<lparr>directories = [root_row,
              \<lparr>directories_id = 2, directories_parent_id = Some 1,
               directories_directory_name = ''sub'', directories_full_path = ''/sub'',
               directories_permission = 16877\<rparr>],
            files = [], tags = []\<rparr>"
proof -
  have h1: "platform_system posix_env \<noteq> ''Windows''"
    by (simp add: posix_env_def)
  have h2: "dir_stat mount_dir = Inr (example_stat 4096 0\<lparr>st_mode := 16877\<rparr>)
      \<and> dir_ismount mount_dir"
    by (simp add: mount_dir_def plain_dir_def)
  have h3: "resolve posix_env ''/proc'' = Inr ''/proc'' \<and> joinpath ''/'' ''proc'' = ''/proc''"
    by (simp add: posix_env_def joinpath_def sep_def)
  have pruned: "map_sum id fst (main posix_env (prune_tree mount_tree) empty_database None)
       = Inr \<lparr>directories = [root_row,
                \<lparr>directories_id = 2, directories_parent_id = Some 1,
                 directories_directory_name = ''sub'', directories_full_path = ''/sub'',
                 directories_permission = 16877\<rparr>],
              files = [], tags = []\<rparr>"
    by (simp add: walk_defs prune_tree_def mount_tree_def)
  note inst = default_run_skips_mount_points [OF h1, where path = "''/proc''"
        and attrs = mount_dir
        and dstat = "example_stat 4096 0\<lparr>st_mode := 16877\<rparr>" and w = after_root
        and rootdir = "''/''" and item = "''proc''"
        and entries = "[(''cpuinfo'', Regular (Inr (example_stat 0 0)))]" and rest = "[]"
        and parent_id = "Some 1" and tree = mount_tree and db = empty_database]
  have whole: "map_sum id fst (main posix_env mount_tree empty_database None)
       = Inr \<lparr>directories = [root_row,
                \<lparr>directories_id = 2, directories_parent_id = Some 1,
                 directories_directory_name = ''sub'', directories_full_path = ''/sub'',
                 directories_permission = 16877\<rparr>],
              files = [], tags = []\<rparr>"
  proof -
    have "map_sum id fst (main posix_env mount_tree empty_database None)
            = map_sum id fst (main posix_env (prune_tree mount_tree) empty_database None)"
      using inst by (elim conjE)
    with pruned show ?thesis
      by (simp only:)
  qed
  show ?thesis
    using inst h2 h3 whole by (simp add: print_def after_root_def)
qed

subsection \<open>Owner resolution\<close>

text \<open>
  C3, as the code has it. Owner resolution does not fail soft. When the owner lookup of
  a file raises (\<^verbatim>\<open>pwd.getpwuid\<close> on POSIX, the \<^verbatim>\<open>win32security\<close> calls on Windows),
  nothing catches the exception at the file: the file's row has been inserted, no tag
  row is inserted for it, and the loop over the directory ends at that file with the
  exception. The call on the directory raises it unless it is a \<^verbatim>\<open>PermissionError\<close>; a
  caller's loop stops on it unless it is an \<^verbatim>\<open>OSError\<close>; the loop over the roots in
  \<^verbatim>\<open>main\<close> stops on it.
\<close>

theorem owner_resolution_error_propagates:
  assumes owner: "os_name e = ''posix'' \<and> pwd_getpwuid e (st_uid file_stat) = Inl exc
                  \<or> os_name e = ''nt'' \<and> win32_owner e (joinpath rootdir item) = Inl exc"
    and before: "directory_loop e w0 rootdir pre filesystems parent_id0 = (w, parent_id, None)"
    and ins: "insert_file (conn w) parent_id item (joinpath rootdir item) (st_size file_stat)
                (st_mode file_stat) = (c1, file_id)"
  shows
    "directory_loop e w0 rootdir (pre @ (item, Regular (Inr file_stat)) # rest) filesystems
        parent_id0 = (w\<lparr>conn := c1\<rparr>, parent_id, Some exc)
     \<and> files c1 = files (conn w) @
          [\<lparr>files_id = file_id, files_directory_id = parent_id, files_file_name = item,
            files_file_path = joinpath rootdir item, files_size = st_size file_stat,
            files_permission = st_mode file_stat\<rparr>]
     \<and> tags c1 = tags (conn w)
     \<and> (\<not> isinstance_PermissionError exc
          \<and> dir_stat attrs = Inr dstat \<and> dir_listdir_error attrs = None
          \<and> insert_directory (conn wd) pid (path_name rootdir) rootdir (st_mode dstat)
               = (c0, new_id)
          \<and> w0 = wd\<lparr>conn := c0\<rparr> \<and> parent_id0 = Some new_id \<longrightarrow>
        get_directory_structure e wd rootdir attrs
            (pre @ (item, Regular (Inr file_stat)) # rest) filesystems pid
          = (w\<lparr>conn := c1\<rparr>, Inl exc))
     \<and> (\<not> isinstance_OSError exc
          \<and> dir_stat attrs' = Inr dstat'
          \<and> skip_mount e wa (joinpath updir name) attrs' filesystems = (False, wb)
          \<and> get_directory_structure e wb (joinpath updir name) attrs' entries' filesystems pa
               = (wc, Inl exc) \<longrightarrow>
        directory_loop e wa updir ((name, Directory attrs' entries') # others) filesystems pa
          = (wc, pa, Some exc))
     \<and> (get_directory_structure e wr root_directory (fst (tree root_directory))
            (snd (tree root_directory)) filesystems None = (wc, Inl exc) \<longrightarrow>
        walk_roots e tree wr (root_directory # roots) filesystems = (wc, Some exc))"
proof -
  have res: "resolve_owner e (joinpath rootdir item) file_stat = Inl exc"
    using owner by (auto simp: resolve_owner_def)
  have one: "index_file e w item (joinpath rootdir item) (Inr file_stat) parent_id
                = (w\<lparr>conn := c1\<rparr>, Some exc)"
    using res ins by (simp add: index_file_def Let_def)
  have loop: "directory_loop e w0 rootdir (pre @ (item, Regular (Inr file_stat)) # rest) filesystems
        parent_id0 = (w\<lparr>conn := c1\<rparr>, parent_id, Some exc)"
    using before one by (simp add: directory_loop_append loop_regular)
  have rows: "files c1 = files (conn w) @
          [\<lparr>files_id = file_id, files_directory_id = parent_id, files_file_name = item,
            files_file_path = joinpath rootdir item, files_size = st_size file_stat,
            files_permission = st_mode file_stat\<rparr>]
     \<and> tags c1 = tags (conn w)"
    using insert_file_row [OF ins] by simp
  have call: "get_directory_structure e wd rootdir attrs
            (pre @ (item, Regular (Inr file_stat)) # rest) filesystems pid
          = (w\<lparr>conn := c1\<rparr>, Inl exc)"
    if "\<not> isinstance_PermissionError exc" and "dir_stat attrs = Inr dstat"
      and "dir_listdir_error attrs = None"
      and "insert_directory (conn wd) pid (path_name rootdir) rootdir (st_mode dstat)
               = (c0, new_id)"
      and "w0 = wd\<lparr>conn := c0\<rparr>" and "parent_id0 = Some new_id"
  proof -
    have "directory_loop e (wd\<lparr>conn := c0\<rparr>) rootdir
            (pre @ (item, Regular (Inr file_stat)) # rest) filesystems (Some new_id)
          = (w\<lparr>conn := c1\<rparr>, parent_id, Some exc)"
      using loop that(5,6) by simp
    with that(1-4) show ?thesis
      by (simp add: gds_lists)
  qed
  have caller: "directory_loop e wa updir ((name, Directory attrs' entries') # others) filesystems pa
          = (wc, pa, Some exc)"
    if "\<not> isinstance_OSError exc" and "dir_stat attrs' = Inr dstat'"
      and "skip_mount e wa (joinpath updir name) attrs' filesystems = (False, wb)"
      and "get_directory_structure e wb (joinpath updir name) attrs' entries' filesystems pa
               = (wc, Inl exc)"
    using that by (simp add: loop_directory_entered [where dstat = dstat' and ?w1.0 = wb])
  have top: "walk_roots e tree wr (root_directory # roots) filesystems = (wc, Some exc)"
    if "get_directory_structure e wr root_directory (fst (tree root_directory))
            (snd (tree root_directory)) filesystems None = (wc, Inl exc)"
    using that by simp
  from loop rows call caller top show ?thesis by blast
qed

theorem owner_resolution_error_propagates_witness:
  "directory_loop posix_env after_root ''/'' (snd (unknown_owner_tree ''/'')) None (Some 1)
     = (after_root\<lparr>conn := (conn after_root)
          \<lparr>files := [\<lparr>files_id = 1, files_directory_id = Some 1, files_file_name = ''a.txt'',
                       files_file_path = ''/a.txt'', files_size = 10,
                       files_permission = 33188\<rparr>],
           last_insert_rowid := 1\<rparr>\<rparr>, Some 1, Some KeyError)
   \<and> get_directory_structure posix_env \<lparr>conn = sqlite3_connect empty_database, stdout = []\<rparr>
         ''/'' plain_dir (snd (unknown_owner_tree ''/'')) None None
     = (after_root\<lparr>conn := (conn after_root)
          \<lparr>files := [\<lparr>files_id = 1, files_directory_id = Some 1, files_file_name = ''a.txt'',
                       files_file_path = ''/a.txt'', files_size = 10,
                       files_permission = 33188\<rparr>],
           last_insert_rowid := 1\<rparr>\<rparr>, Inl KeyError)"
proof -
  let ?c1 = "(conn after_root)
          \<lparr>files := [\<lparr>files_id = 1, files_directory_id = Some 1, files_file_name = ''a.txt'',
                       files_file_path = ''/a.txt'', files_size = 10,
                       files_permission = 33188\<rparr>],
           last_insert_rowid := 1\<rparr>"
  let ?start = "\<lparr>conn = sqlite3_connect empty_database, stdout = []\<rparr>"
  have h1: "os_name posix_env = ''posix''
        \<and> pwd_getpwuid posix_env (st_uid (example_stat 10 7)) = Inl KeyError
      \<or> os_name posix_env = ''nt''
        \<and> win32_owner posix_env (joinpath ''/'' ''a.txt'') = Inl KeyError"
    by (simp add: posix_env_def example_stat_def)
  have h2: "directory_loop posix_env after_root ''/'' [] None (Some 1)
              = (after_root, Some 1, None)"
    by simp
  have h3: "insert_file (conn after_root) (Some 1) ''a.txt'' (joinpath ''/'' ''a.txt'')
              (st_size (example_stat 10 7)) (st_mode (example_stat 10 7)) = (?c1, 1)"
    by (simp add: insert_file_def next_rowid_def after_root_def joinpath_def sep_def
        example_stat_def Let_def)
  have h4: "\<not> isinstance_PermissionError KeyError
      \<and> dir_stat plain_dir = Inr (example_stat 4096 0\<lparr>st_mode := 16877\<rparr>)
      \<and> dir_listdir_error plain_dir = None
      \<and> insert_directory (conn ?start) None (path_name ''/'') ''/''
            (st_mode (example_stat 4096 0\<lparr>st_mode := 16877\<rparr>)) = (conn after_root, 1)
      \<and> after_root = ?start\<lparr>conn := conn after_root\<rparr>"
    by (simp add: isinstance_PermissionError_def plain_dir_def insert_directory_def
        next_rowid_def sqlite3_connect_def empty_database_def after_root_def root_row_def
        path_name_def sep_def example_stat_def Let_def)
  show ?thesis
    using owner_resolution_error_propagates [OF h1 h2 h3,
        where rest = "[(''b.txt'', Regular (Inr (example_stat 10 0)))]" and attrs = plain_dir
        and dstat = "example_stat 4096 0\<lparr>st_mode := 16877\<rparr>" and wd = ?start and pid = None
        and ?c0.0 = "conn after_root" and new_id = 1] h4
    by (simp add: unknown_owner_tree_def)
qed

text \<open>
  C3 as stated fails on \<open>unknown_owner_tree\<close>: the lookup of uid 7 raises
  \<^verbatim>\<open>KeyError\<close>, the walk of the root raises it, no tag row has been inserted, the file
  \<open>b.txt\<close> after it is never reached, and \<^verbatim>\<open>main\<close> ends with the exception.
\<close>

theorem owner_resolution_aborts_walk:
  "snd (get_directory_structure posix_env \<lparr>conn = sqlite3_connect empty_database, stdout = []\<rparr>
          ''/'' (fst (unknown_owner_tree ''/'')) (snd (unknown_owner_tree ''/'')) None None)
     = Inl KeyError
   \<and> tags (conn (fst (get_directory_structure posix_env
          \<lparr>conn = sqlite3_connect empty_database, stdout = []\<rparr>
          ''/'' (fst (unknown_owner_tree ''/'')) (snd (unknown_owner_tree ''/'')) None None)))
     = []
   \<and> map files_file_path (files (conn (fst (get_directory_structure posix_env
          \<lparr>conn = sqlite3_connect empty_database, stdout = []\<rparr>
          ''/'' (fst (unknown_owner_tree ''/'')) (snd (unknown_owner_tree ''/'')) None None))))
     = [''/a.txt'']
   \<and> main posix_env unknown_owner_tree empty_database None = Inl KeyError"
  by (simp add: walk_defs unknown_owner_tree_def file_facts)

section \<open>Deviations of the code\<close>

subsection \<open>Running the walker twice\<close>

lemma one_file_first_run:
  "main posix_env one_file_tree empty_database None = Inr (first_run, [PrintUpdated])"
  by (simp add: walk_defs one_file_tree_def first_run_def a_txt_file_def a_txt_tag_def file_facts)

lemma one_file_second_run:
  "main posix_env one_file_tree first_run None = Inr (second_run, [PrintUpdated])"
  by (simp add: walk_defs one_file_tree_def first_run_def second_run_def a_txt_file_def
      a_txt_tag_def file_facts)

text \<open>
  C1 does not hold of the code. \<^verbatim>\<open>INSERT OR IGNORE\<close> has nothing to ignore in
  \<^verbatim>\<open>directories\<close> and \<^verbatim>\<open>files\<close>, whose only key is the id that SQLite assigns afresh:
  a second run over the unchanged tree \<open>one_file_tree\<close> adds a second row for the path
  \<open>/\<close>, a second row for \<open>/a.txt\<close>, and, under the new file id, a second tag.
\<close>

theorem second_run_duplicates_rows:
  "main posix_env one_file_tree empty_database None = Inr (first_run, [PrintUpdated])
   \<and> main posix_env one_file_tree first_run None = Inr (second_run, [PrintUpdated])
   \<and> map directories_full_path (directories first_run) = [''/'']
   \<and> map directories_full_path (directories second_run) = [''/'', ''/'']
   \<and> map files_file_path (files first_run) = [''/a.txt'']
   \<and> map files_file_path (files second_run) = [''/a.txt'', ''/a.txt'']
   \<and> map tags_file_id (tags first_run) = [1]
   \<and> map tags_file_id (tags second_run) = [1, 2]"
  by (intro conjI one_file_first_run one_file_second_run)
    (simp_all add: first_run_def second_run_def root_row_def a_txt_file_def a_txt_tag_def)

subsection \<open>The value the walk returns\<close>

text \<open>
  C2 does not hold of the code. The loop assigns the value returned by each recursive
  call to \<^verbatim>\<open>parent_id\<close>, and the function returns that variable: on \<open>nested_tree\<close> the
  call on \<open>/\<close> (row 1) returns 3, the id of \<open>/sub/deep\<close>, and the call on \<open>/sub\<close>
  (row 2) has returned 3 as well, so the file \<open>/f.txt\<close>, listed after \<open>sub\<close>, is
  inserted with directory id 3.
\<close>

theorem walk_returns_last_descendant:
  "snd (get_directory_structure posix_env \<lparr>conn = sqlite3_connect empty_database, stdout = []\<rparr>
          ''/'' (fst (nested_tree ''/'')) (snd (nested_tree ''/'')) None None)
     = Inr (Some 3)
   \<and> map (\<lambda>r. (directories_id r, directories_parent_id r, directories_full_path r))
       (directories (conn (fst (get_directory_structure posix_env
          \<lparr>conn = sqlite3_connect empty_database, stdout = []\<rparr>
          ''/'' (fst (nested_tree ''/'')) (snd (nested_tree ''/'')) None None))))
     = [(1, None, ''/''), (2, Some 1, ''/sub''), (3, Some 2, ''/sub/deep'')]
   \<and> map (\<lambda>r. (files_file_path r, files_directory_id r))
       (files (conn (fst (get_directory_structure posix_env
          \<lparr>conn = sqlite3_connect empty_database, stdout = []\<rparr>
          ''/'' (fst (nested_tree ''/'')) (snd (nested_tree ''/'')) None None))))
     = [(''/f.txt'', Some 3)]
   \<and> snd (get_directory_structure posix_env after_root ''/sub'' plain_dir
          [(''deep'', Directory plain_dir [])] None (Some 1))
     = Inr (Some 3)"
  by (simp add: walk_defs nested_tree_def file_facts)

subsection \<open>Filtering the extra roots on Windows\<close>

text \<open>
  C9 does not hold of the code. The filter reads \<^verbatim>\<open>fs[1]\<close> of every string of at most
  four characters, and that raises \<^verbatim>\<open>IndexError\<close> on a string of one character (and on
  the empty string): \<^verbatim>\<open>main\<close> ends with the exception before the store is opened.
  Strings of two to four characters are filtered, longer ones dropped, without error.
\<close>

theorem filter_raises_on_short_string:
  "filter_filesystems [''D''] = Inl IndexError
   \<and> filter_filesystems [[]] = Inl IndexError
   \<and> main windows_env tree db (Some [''D'']) = Inl IndexError
   \<and> filter_filesystems [''D:'', ''toolong'', ''E:x'', ''ab''] = Inr [''D:'', ''E:x'']"
  by (simp add: main_def windows_env_def)

end
